theory Spec2Isabelle
  imports Complex_Main "HOL-Library.Word"
begin

section \<open>FreeTypePen: the data model\<close>

text \<open>
  A shallow embedding of \<^verbatim>\<open>Lib/fontTools/pens/freetypePen.py\<close>.
  Python numbers (the coordinates, offsets, scales, widths and heights a caller passes)
  are exact reals here, except in the section on scales that need not be finite;
  Python's unbounded integers are \<open>int\<close>; the values handed to
  \<^verbatim>\<open>ctypes.c_short\<close>, \<^verbatim>\<open>ctypes.c_ubyte\<close> and \<^verbatim>\<open>ctypes.c_int\<close> are machine
  words, since ctypes truncates an integer to the width of the C type without
  any overflow check.
\<close>

type_synonym point = "real \<times> real"

datatype error =
    IndexError
  | ValueError
  | OverflowError
  | FT_Exception int
  | NoOpenContourError
  | InvalidTransformError

text \<open>
  \<open>IndexError\<close>, \<open>ValueError\<close> and \<open>OverflowError\<close> are Python's built-in exceptions and
  \<open>FT_Exception\<close> is the one \<^verbatim>\<open>buffer\<close> raises. \<open>NoOpenContourError\<close> and
  \<open>InvalidTransformError\<close> are named by the specification only: the source defines
  neither, and no function below returns them.
\<close>

definition c_short :: "int \<Rightarrow> 16 word" where
  "c_short v = word_of_int v"

definition c_ubyte :: "int \<Rightarrow> 8 word" where
  "c_ubyte v = word_of_int v"

definition c_int :: "int \<Rightarrow> 32 word" where
  "c_int v = word_of_int v"

text \<open>
  \<^verbatim>\<open>(T * n)(*xs)\<close>: a ctypes array of \<open>n\<close> elements initialised from \<open>xs\<close>. The
  elements \<open>xs\<close> does not reach keep the zero value \<open>z\<close> of the type; more than \<open>n\<close>
  initialisers raise \<open>IndexError\<close>.
\<close>

definition c_array :: "nat \<Rightarrow> 'a \<Rightarrow> 'a list \<Rightarrow> error + 'a list" where
  "c_array n z xs =
     (if n < length xs then Inl IndexError else Inr (xs @ replicate (n - length xs) z))"

text \<open>
  Modelled from the spec: \<^verbatim>\<open>FT_Pos\<close>, which freetype-py declares and the source
  files do not. It is the type of a fixed-point device coordinate, an integer count of
  1/64 pixel; the spec gives it no width.
\<close>

definition FT_Pos :: "int \<Rightarrow> int" where
  "FT_Pos v = v"

datatype FT_Vector = FT_Vector (vec_x: int) (vec_y: int)

datatype outline_flags = FT_OUTLINE_NONE | FT_OUTLINE_EVEN_ODD_FILL

datatype pixel_mode = FT_PIXEL_MODE_GRAY

record FT_Outline =
  n_contours :: "16 word"
  n_points :: "16 word"
  points :: "FT_Vector list"
  tags :: "8 word list"
  contours :: "16 word list"
  flags :: outline_flags

record FT_BBox =
  xMin :: int
  yMin :: int
  xMax :: int
  yMax :: int

record FT_Bitmap =
  rows :: "32 word"
  width :: "32 word"
  pitch :: "32 word"
  buffer_bytes :: "8 word list"
  num_grays :: "16 word"
  pixel_mode :: pixel_mode
  palette_mode :: "8 word"

text \<open>\<^verbatim>\<open>Contour = collections.namedtuple('Contour', ('points', 'tags'))\<close>\<close>

datatype Contour = Contour (points: "point list") (tags: "int list")

definition LINE :: int where "LINE = 1"
definition CURVE :: int where "CURVE = 3"
definition OFFCURVE :: int where "OFFCURVE = 2"
definition QCURVE :: int where "QCURVE = 1"
definition QOFFCURVE :: int where "QOFFCURVE = 0"

section \<open>The pen's drawing methods\<close>

text \<open>
  The pen's state is \<^verbatim>\<open>self.contours\<close>, a list of contours; \<^verbatim>\<open>__init__\<close> sets it to
  the empty list. A method takes the state and returns what it raised, or \<open>Inr ()\<close>,
  together with the state it leaves behind.
\<close>

type_synonym pen = "Contour list"

definition init :: pen where
  "init = []"

text \<open>
  \<^verbatim>\<open>contour.points.append(p); contour.tags.append(t)\<close> where \<^verbatim>\<open>contour\<close> is
  \<^verbatim>\<open>self.contours[-1]\<close>: the two lists of the last contour are extended in place.
\<close>

definition append_point :: "point \<Rightarrow> int \<Rightarrow> pen \<Rightarrow> pen" where
  "append_point p t cs =
     (let i = length cs - 1; c = cs ! i
      in cs[i := Contour (points c @ [p]) (tags c @ [t])])"

definition pen_moveTo :: "point \<Rightarrow> pen \<Rightarrow> (error + unit) \<times> pen" where
  "pen_moveTo pt cs = (Inr (), append_point pt LINE (cs @ [Contour [] []]))"

definition pen_lineTo :: "point \<Rightarrow> pen \<Rightarrow> (error + unit) \<times> pen" where
  "pen_lineTo pt cs =
     (if cs = [] then (Inl IndexError, cs)
      else (Inr (), append_point pt LINE cs))"

definition pen_curveToOne :: "point \<Rightarrow> point \<Rightarrow> point \<Rightarrow> pen \<Rightarrow> (error + unit) \<times> pen" where
  "pen_curveToOne p1 p2 p3 cs =
     (let t1 = OFFCURVE; t2 = OFFCURVE; t3 = CURVE
      in if cs = [] then (Inl IndexError, cs)
         else (Inr (), foldl (\<lambda>s (p, t). append_point p t s) cs [(p1, t1), (p2, t2), (p3, t3)]))"

definition pen_qCurveToOne :: "point \<Rightarrow> point \<Rightarrow> pen \<Rightarrow> (error + unit) \<times> pen" where
  "pen_qCurveToOne p1 p2 cs =
     (let t1 = QOFFCURVE; t2 = QCURVE
      in if cs = [] then (Inl IndexError, cs)
         else (Inr (), foldl (\<lambda>s (p, t). append_point p t s) cs [(p1, t1), (p2, t2)]))"

text \<open>
  A sequence of path commands: each command is one call of a drawing method, and the
  first call that raises ends the sequence.
\<close>

datatype command =
    MoveTo point
  | LineTo point
  | CurveToOne point point point
  | QCurveToOne point point

fun exec :: "command \<Rightarrow> pen \<Rightarrow> (error + unit) \<times> pen" where
  "exec (MoveTo pt) cs = pen_moveTo pt cs"
| "exec (LineTo pt) cs = pen_lineTo pt cs"
| "exec (CurveToOne p1 p2 p3) cs = pen_curveToOne p1 p2 p3 cs"
| "exec (QCurveToOne p1 p2) cs = pen_qCurveToOne p1 p2 cs"

fun draw :: "command list \<Rightarrow> pen \<Rightarrow> (error + unit) \<times> pen" where
  "draw [] cs = (Inr (), cs)"
| "draw (k # ks) cs =
     (case exec k cs of
        (Inl e, cs') \<Rightarrow> (Inl e, cs')
      | (Inr u, cs') \<Rightarrow> draw ks cs')"

section \<open>Assembling the outline\<close>

text \<open>
  Modelled from the spec: \<^verbatim>\<open>otRound\<close>, which the pen imports from
  \<^verbatim>\<open>fontTools.misc.roundTools\<close>, a module that is not among the source files. The
  spec's quantizer rounds to the nearest integer, ties away from zero.
\<close>

definition otRound :: "real \<Rightarrow> int" where
  "otRound v = (if 0 \<le> v then \<lfloor>v + 1 / 2\<rfloor> else \<lceil>v - 1 / 2\<rceil>)"

text \<open>\<^verbatim>\<open>offset or (0, 0)\<close> and \<^verbatim>\<open>scale or (1.0, 1.0)\<close>.\<close>

definition or_default :: "'a option \<Rightarrow> 'a \<Rightarrow> 'a" where
  "or_default v d = (case v of None \<Rightarrow> d | Some a \<Rightarrow> a)"

text \<open>
  The loop that fills \<^verbatim>\<open>contours\<close>: \<open>s\<close> is \<^verbatim>\<open>contours_sum\<close> before the contour
  is visited.
\<close>

fun contour_ends :: "int \<Rightarrow> Contour list \<Rightarrow> int list" where
  "contour_ends s [] = []"
| "contour_ends s (c # cs) =
     (s + int (length (points c)) - 1) # contour_ends (s + int (length (points c))) cs"

definition quantize_point :: "point \<Rightarrow> point \<Rightarrow> point \<Rightarrow> FT_Vector" where
  "quantize_point offset scale point =
     FT_Vector (FT_Pos (otRound ((fst point + fst offset) * fst scale * 64)))
               (FT_Pos (otRound ((snd point + snd offset) * snd scale * 64)))"

definition outline :: "pen \<Rightarrow> point option \<Rightarrow> point option \<Rightarrow> bool \<Rightarrow> error + FT_Outline" where
  "outline cs offset scale evenOdd =
     (let offset = or_default offset (0, 0);
          scale = or_default scale (1, 1);
          nContours = length cs;
          n_pts = sum_list (map (\<lambda>contour. length (points contour)) cs);
          pts = concat (map (\<lambda>contour. map (quantize_point offset scale) (points contour)) cs);
          tgs = concat (map tags cs);
          ends = contour_ends 0 cs;
          fl = (if evenOdd then FT_OUTLINE_EVEN_ODD_FILL else FT_OUTLINE_NONE)
      in case c_array n_pts (FT_Vector 0 0) pts of
           Inl e \<Rightarrow> Inl e
         | Inr parr \<Rightarrow>
        (case c_array n_pts 0 (map c_ubyte tgs) of
           Inl e \<Rightarrow> Inl e
         | Inr tarr \<Rightarrow>
        (case c_array nContours 0 (map c_short ends) of
           Inl e \<Rightarrow> Inl e
         | Inr carr \<Rightarrow>
             Inr \<lparr>n_contours = c_short (int nContours), n_points = c_short (int n_pts),
                  FT_Outline.points = parr, FT_Outline.tags = tarr, contours = carr,
                  flags = fl\<rparr>)))"

text \<open>
  Every contour the drawing methods build has as many tags as points: each of them
  appends a point and its tag together.
\<close>

definition paired :: "pen \<Rightarrow> bool" where
  "paired cs = list_all (\<lambda>c. length (tags c) = length (points c)) cs"

section \<open>The outline under a scale that need not be finite\<close>

text \<open>
  A Python float is an IEEE 754 double: besides the finite values it has the two
  infinities and NaN, and a finite result too large for a double is an infinity. In
  \<^verbatim>\<open>outline\<close> above every number is a real, which leaves these values out. Here the
  scale is a float that may be infinite or NaN, the coordinates and the offset are
  finite floats, and each operation of
  \<^verbatim>\<open>(point[0] + offset[0]) * scale[0] * 64\<close> overflows to an infinity as a double
  does under rounding to nearest, from \<open>2 ^ 1024 - 2 ^ 970\<close> on. The rounding of the
  mantissa is not modelled: a finite result is the exact real.
\<close>

datatype pyfloat = Finite real | PosInf | NegInf | NaN

definition float_limit :: real where
  "float_limit = 2 ^ 1024 - 2 ^ 970"

definition overflow :: "real \<Rightarrow> pyfloat" where
  "overflow v = (if \<bar>v\<bar> < float_limit then Finite v else if 0 < v then PosInf else NegInf)"

fun is_finite :: "pyfloat \<Rightarrow> bool" where
  "is_finite (Finite v) = True"
| "is_finite f = False"

fun fsign :: "pyfloat \<Rightarrow> int" where
  "fsign (Finite v) = (if v = 0 then 0 else if 0 < v then 1 else - 1)"
| "fsign PosInf = 1"
| "fsign NegInf = - 1"
| "fsign NaN = 0"

text \<open>
  The product of two floats: NaN if a factor is NaN or if zero meets an infinity, the
  infinity of the product's sign if a factor is infinite, the real product otherwise,
  unless it overflows.
\<close>

fun fmul :: "pyfloat \<Rightarrow> pyfloat \<Rightarrow> pyfloat" where
  "fmul NaN b = NaN"
| "fmul a NaN = NaN"
| "fmul (Finite a) (Finite b) = overflow (a * b)"
| "fmul a b =
     (if fsign a * fsign b = 0 then NaN else if 0 < fsign a * fsign b then PosInf else NegInf)"

definition fadd :: "real \<Rightarrow> real \<Rightarrow> pyfloat" where
  "fadd a b = overflow (a + b)"

text \<open>
  Modelled from the spec: \<^verbatim>\<open>otRound\<close> on a float, the helper of
  \<^verbatim>\<open>fontTools.misc.roundTools\<close> that is not among the source files. On a finite value
  it is the spec's rounding to an integer; there is no integer for an infinity or for
  NaN, and Python raises \<open>OverflowError\<close>, respectively \<open>ValueError\<close>, when such a
  float is converted to an integer.
\<close>

fun otRound_py :: "pyfloat \<Rightarrow> error + int" where
  "otRound_py (Finite v) = Inr (otRound v)"
| "otRound_py PosInf = Inl OverflowError"
| "otRound_py NegInf = Inl OverflowError"
| "otRound_py NaN = Inl ValueError"

text \<open>
  One \<^verbatim>\<open>FT_Vector(...)\<close> of the loop: the x coordinate is rounded before the y
  coordinate, and the first rounding that raises ends the call.
\<close>

definition quantize_py :: "point \<Rightarrow> pyfloat \<times> pyfloat \<Rightarrow> point \<Rightarrow> error + FT_Vector" where
  "quantize_py offset scale point =
     (case otRound_py (fmul (fmul (fadd (fst point) (fst offset)) (fst scale)) (Finite 64)) of
        Inl e \<Rightarrow> Inl e
      | Inr qx \<Rightarrow>
          (case otRound_py (fmul (fmul (fadd (snd point) (snd offset)) (snd scale)) (Finite 64)) of
             Inl e \<Rightarrow> Inl e
           | Inr qy \<Rightarrow> Inr (FT_Vector (FT_Pos qx) (FT_Pos qy))))"

fun quantize_all :: "point \<Rightarrow> pyfloat \<times> pyfloat \<Rightarrow> point list \<Rightarrow> error + FT_Vector list" where
  "quantize_all offset scale [] = Inr []"
| "quantize_all offset scale (p # ps) =
     (case quantize_py offset scale p of
        Inl e \<Rightarrow> Inl e
      | Inr v \<Rightarrow>
          (case quantize_all offset scale ps of
             Inl e \<Rightarrow> Inl e
           | Inr vs \<Rightarrow> Inr (v # vs)))"

definition outline_py ::
  "pen \<Rightarrow> point option \<Rightarrow> (pyfloat \<times> pyfloat) option \<Rightarrow> bool \<Rightarrow> error + FT_Outline" where
  "outline_py cs offset scale evenOdd =
     (let offset = or_default offset (0, 0);
          scale = or_default scale (Finite 1, Finite 1);
          nContours = length cs;
          n_pts = sum_list (map (\<lambda>contour. length (points contour)) cs);
          tgs = concat (map tags cs);
          ends = contour_ends 0 cs;
          fl = (if evenOdd then FT_OUTLINE_EVEN_ODD_FILL else FT_OUTLINE_NONE)
      in case quantize_all offset scale (concat (map points cs)) of
           Inl e \<Rightarrow> Inl e
         | Inr pts \<Rightarrow>
        (case c_array n_pts (FT_Vector 0 0) pts of
           Inl e \<Rightarrow> Inl e
         | Inr parr \<Rightarrow>
        (case c_array n_pts 0 (map c_ubyte tgs) of
           Inl e \<Rightarrow> Inl e
         | Inr tarr \<Rightarrow>
        (case c_array nContours 0 (map c_short ends) of
           Inl e \<Rightarrow> Inl e
         | Inr carr \<Rightarrow>
             Inr \<lparr>n_contours = c_short (int nContours), n_points = c_short (int n_pts),
                  FT_Outline.points = parr, FT_Outline.tags = tarr, contours = carr,
                  flags = fl\<rparr>))))"

text \<open>
  No operation on the point \<open>p\<close> overflows under the finite scale \<open>scale\<close>.
\<close>

definition in_range :: "point \<Rightarrow> point \<Rightarrow> point \<Rightarrow> bool" where
  "in_range offset scale p =
     (\<bar>fst p + fst offset\<bar> < float_limit
      \<and> \<bar>(fst p + fst offset) * fst scale\<bar> < float_limit
      \<and> \<bar>(fst p + fst offset) * fst scale * 64\<bar> < float_limit
      \<and> \<bar>snd p + snd offset\<bar> < float_limit
      \<and> \<bar>(snd p + snd offset) * snd scale\<bar> < float_limit
      \<and> \<bar>(snd p + snd offset) * snd scale * 64\<bar> < float_limit)"

section \<open>Extents and the bitmap buffer\<close>

text \<open>
  \<^verbatim>\<open>FT_Outline_Get_BBox\<close>, \<^verbatim>\<open>FT_Outline_Get_CBox\<close> and
  \<^verbatim>\<open>FT_Outline_Get_Bitmap\<close> belong to the FreeType library, not to this repository:
  they are parameters of the methods that call them. A box function gives the
  \<^verbatim>\<open>FT_BBox\<close> the library leaves behind; the bitmap function gives the error code it
  returns and the bytes it leaves in the buffer.
\<close>

type_synonym box = "real \<times> real \<times> real \<times> real"

definition bbox :: "(FT_Outline \<Rightarrow> FT_BBox) \<Rightarrow> pen \<Rightarrow> error + box" where
  "bbox FT_Outline_Get_BBox cs =
     (case outline cs None None False of
        Inl e \<Rightarrow> Inl e
      | Inr ol \<Rightarrow>
          (let b = FT_Outline_Get_BBox ol
           in Inr (real_of_int (xMin b) / 64, real_of_int (yMin b) / 64,
                   real_of_int (xMax b) / 64, real_of_int (yMax b) / 64)))"

definition cbox :: "(FT_Outline \<Rightarrow> FT_BBox) \<Rightarrow> pen \<Rightarrow> error + box" where
  "cbox FT_Outline_Get_CBox cs =
     (case outline cs None None False of
        Inl e \<Rightarrow> Inl e
      | Inr ol \<Rightarrow>
          (let b = FT_Outline_Get_CBox ol
           in Inr (real_of_int (xMin b) / 64, real_of_int (yMin b) / 64,
                   real_of_int (xMax b) / 64, real_of_int (yMax b) / 64)))"

text \<open>
  The first part of \<^verbatim>\<open>buffer\<close>, up to the two \<^verbatim>\<open>math.ceil\<close>: the offset handed to
  \<^verbatim>\<open>outline\<close>, the scale, and the width and height of the bitmap.
\<close>

definition buffer_canvas ::
  "(FT_Outline \<Rightarrow> FT_BBox) \<Rightarrow> pen \<Rightarrow> point option \<Rightarrow> real \<Rightarrow> real \<Rightarrow> point option \<Rightarrow> bool
   \<Rightarrow> error + (point \<times> point \<times> int \<times> int)" where
  "buffer_canvas FT_Outline_Get_BBox cs offset w h scale contain =
     (let (offset_x, offset_y) = or_default offset (0, 0)
      in case (if contain
               then (case bbox FT_Outline_Get_BBox cs of
                       Inl e \<Rightarrow> Inl e
                     | Inr (b0, b1, b2, b3) \<Rightarrow>
                         (let bbox_size = (b2 - b0, b3 - b1)
                          in Inr ((min offset_x b0 * - 1, min offset_y b1 * - 1),
                                  max w (fst bbox_size), max h (snd bbox_size))))
               else Inr ((offset_x, offset_y), w, h)) of
           Inl e \<Rightarrow> Inl e
         | Inr (off, w', h') \<Rightarrow>
             (let scale = or_default scale (1, 1)
              in Inr (off, scale, \<lceil>w' * fst scale\<rceil>, \<lceil>h' * snd scale\<rceil>)))"

text \<open>
  The rest of \<^verbatim>\<open>buffer\<close>. \<^verbatim>\<open>ctypes.create_string_buffer\<close> raises \<open>ValueError\<close> for
  a negative size and gives a zeroed buffer otherwise.
\<close>

definition buffer ::
  "(FT_Outline \<Rightarrow> FT_BBox) \<Rightarrow> (FT_Outline \<Rightarrow> FT_Bitmap \<Rightarrow> int \<times> 8 word list) \<Rightarrow> pen
   \<Rightarrow> point option \<Rightarrow> real \<Rightarrow> real \<Rightarrow> bool \<Rightarrow> point option \<Rightarrow> bool
   \<Rightarrow> error + (8 word list \<times> (int \<times> int))" where
  "buffer FT_Outline_Get_BBox FT_Outline_Get_Bitmap cs offset w h evenOdd scale contain =
     (case buffer_canvas FT_Outline_Get_BBox cs offset w h scale contain of
        Inl e \<Rightarrow> Inl e
      | Inr (off, scale, wd, ht) \<Rightarrow>
          if wd * ht < 0 then Inl ValueError
          else
            (let buf = replicate (nat (wd * ht)) (0 :: 8 word);
                 bitmap = \<lparr>rows = c_int ht, width = c_int wd, pitch = c_int wd,
                            buffer_bytes = buf, num_grays = c_short 256,
                            pixel_mode = FT_PIXEL_MODE_GRAY, palette_mode = 0\<rparr>
             in case outline cs (Some off) (Some scale) evenOdd of
                  Inl e \<Rightarrow> Inl e
                | Inr ol \<Rightarrow>
                    (case FT_Outline_Get_Bitmap ol bitmap of
                       (err, raw) \<Rightarrow>
                         if err \<noteq> 0 then Inl (FT_Exception err) else Inr (raw, (wd, ht)))))"

section \<open>The notions the specification uses\<close>

text \<open>
  The five classifications of a point in the specification's data model, the tag the
  source writes for each, and the classifications of the points each path command
  appends according to the specification.
\<close>

datatype point_class = LineEnd | CubicEnd | CubicControl | QuadEnd | QuadControl

fun tag_of :: "point_class \<Rightarrow> int" where
  "tag_of LineEnd = LINE"
| "tag_of CubicEnd = CURVE"
| "tag_of CubicControl = OFFCURVE"
| "tag_of QuadEnd = QCURVE"
| "tag_of QuadControl = QOFFCURVE"

fun spec_classes :: "command \<Rightarrow> point_class list" where
  "spec_classes (MoveTo pt) = [LineEnd]"
| "spec_classes (LineTo pt) = [LineEnd]"
| "spec_classes (CurveToOne p1 p2 p3) = [CubicControl, CubicControl, CubicEnd]"
| "spec_classes (QCurveToOne p1 p2) = [QuadControl, QuadEnd]"

fun is_append :: "command \<Rightarrow> bool" where
  "is_append (MoveTo pt) = False"
| "is_append k = True"

text \<open>
  \<open>q\<close> is \<open>v\<close> rounded to the nearest integer, a tie going away from zero: \<open>q\<close> is
  within one half of \<open>v\<close>, and where it is exactly one half away it is the candidate
  of the larger magnitude.
\<close>

definition nearest_away :: "real \<Rightarrow> int \<Rightarrow> bool" where
  "nearest_away v q =
     (\<bar>real_of_int q - v\<bar> \<le> 1 / 2 \<and> (\<bar>real_of_int q - v\<bar> = 1 / 2 \<longrightarrow> \<bar>v\<bar> < \<bar>real_of_int q\<bar>))"

text \<open>A coordinate that is an exact multiple of 1/64 pixel.\<close>

definition aligned :: "real \<Rightarrow> bool" where
  "aligned v = (real_of_int \<lfloor>v * 64\<rfloor> = v * 64)"

text \<open>
  The box \<open>b\<close>, moved by the offset and scaled as \<^verbatim>\<open>outline\<close> moves and scales every
  point, lies within a canvas of \<open>w\<close> by \<open>h\<close> pixels.
\<close>

definition fits_canvas :: "box \<Rightarrow> point \<Rightarrow> point \<Rightarrow> int \<Rightarrow> int \<Rightarrow> bool" where
  "fits_canvas b off sc w h =
     (case b of (x0, y0, x1, y1) \<Rightarrow>
        0 \<le> (x0 + fst off) * fst sc \<and> (x1 + fst off) * fst sc \<le> real_of_int w
      \<and> 0 \<le> (y0 + snd off) * snd sc \<and> (y1 + snd off) * snd sc \<le> real_of_int h)"

text \<open>
  Modelled from the spec: the box of all points of an outline, which FreeType computes
  and the source files do not. The spec's control box takes the minimum and the maximum
  over all points, the exact box of an outline made of line segments only needs the
  same endpoints, and an empty outline has the zero box at the origin. It stands for
  the library where a statement needs a concrete outline's box.
\<close>

definition points_box :: "FT_Outline \<Rightarrow> FT_BBox" where
  "points_box ol =
     (case FT_Outline.points ol of
        [] \<Rightarrow> \<lparr>xMin = 0, yMin = 0, xMax = 0, yMax = 0\<rparr>
      | p # ps \<Rightarrow>
          \<lparr>xMin = fold (\<lambda>q. min (vec_x q)) ps (vec_x p),
           yMin = fold (\<lambda>q. min (vec_y q)) ps (vec_y p),
           xMax = fold (\<lambda>q. max (vec_x q)) ps (vec_x p),
           yMax = fold (\<lambda>q. max (vec_y q)) ps (vec_y p)\<rparr>)"

text \<open>
  A bitmap function that reports success and leaves the buffer as it was handed in.
\<close>

definition blank_bitmap :: "FT_Outline \<Rightarrow> FT_Bitmap \<Rightarrow> int \<times> 8 word list" where
  "blank_bitmap ol bitmap = (0, buffer_bytes bitmap)"

section \<open>Facts about the drawing methods and the outline\<close>

lemma append_point_last:
  "cs \<noteq> [] \<Longrightarrow>
   append_point p t cs = butlast cs @ [Contour (points (last cs) @ [p]) (tags (last cs) @ [t])]"
proof (induction cs rule: rev_induct)
  case Nil
  then show ?case by simp
next
  case (snoc c cs)
  show ?case by (simp add: append_point_def)
qed

lemma append_point_snoc:
  "append_point p t (cs @ [c]) = cs @ [Contour (points c @ [p]) (tags c @ [t])]"
  by (simp add: append_point_last)

lemma c_array_exact: "length xs = n \<Longrightarrow> c_array n z xs = Inr xs"
  by (simp add: c_array_def)

lemma length_quantized:
  "length (concat (map (\<lambda>c. map f (points c)) cs)) = sum_list (map (\<lambda>c. length (points c)) cs)"
  by (induction cs) simp_all

lemma length_tags_paired:
  "paired cs \<Longrightarrow> length (concat (map tags cs)) = sum_list (map (\<lambda>c. length (points c)) cs)"
  by (induction cs) (simp_all add: paired_def)

lemma length_contour_ends: "length (contour_ends s cs) = length cs"
  by (induction cs arbitrary: s) simp_all

lemma concat_quantized:
  "concat (map (\<lambda>c. map f (points c)) cs) = map f (concat (map points cs))"
  by (induction cs) simp_all

lemma length_points_concat:
  "length (concat (map points cs)) = sum_list (map (\<lambda>c. length (points c)) cs)"
  by (induction cs) simp_all

lemma outline_paired:
  assumes "paired cs"
  shows "outline cs offset scale evenOdd =
     Inr \<lparr>n_contours = c_short (int (length cs)),
          n_points = c_short (int (sum_list (map (\<lambda>c. length (points c)) cs))),
          FT_Outline.points =
            map (quantize_point (or_default offset (0, 0)) (or_default scale (1, 1)))
                (concat (map points cs)),
          FT_Outline.tags = map c_ubyte (concat (map tags cs)),
          contours = map c_short (contour_ends 0 cs),
          flags = (if evenOdd then FT_OUTLINE_EVEN_ODD_FILL else FT_OUTLINE_NONE)\<rparr>"
proof -
  let ?n = "sum_list (map (\<lambda>c. length (points c)) cs)"
  let ?q = "quantize_point (or_default offset (0, 0)) (or_default scale (1, 1))"
  have p: "c_array ?n (FT_Vector 0 0) (concat (map (\<lambda>c. map ?q (points c)) cs))
      = Inr (map ?q (concat (map points cs)))"
    by (simp add: c_array_exact length_quantized concat_quantized [symmetric])
  have t: "c_array ?n 0 (map c_ubyte (concat (map tags cs)))
      = Inr (map c_ubyte (concat (map tags cs)))"
    using assms by (simp add: c_array_exact length_tags_paired)
  have c: "c_array (length cs) 0 (map c_short (contour_ends 0 cs))
      = Inr (map c_short (contour_ends 0 cs))"
    by (simp add: c_array_exact length_contour_ends)
  show ?thesis
    unfolding outline_def Let_def by (simp only: p t c sum.case)
qed

lemma contour_ends_nth:
  "i < length cs \<Longrightarrow>
   contour_ends s cs ! i = s + int (sum_list (map (\<lambda>c. length (points c)) (take (Suc i) cs))) - 1"
proof (induction cs arbitrary: s i)
  case Nil
  then show ?case by simp
next
  case (Cons c cs)
  show ?case
  proof (cases i)
    case 0
    then show ?thesis by simp
  next
    case (Suc j)
    with Cons.prems have "j < length cs" by simp
    from Cons.IH [OF this] Suc show ?thesis by simp
  qed
qed

lemma paired_append_point:
  "paired cs \<Longrightarrow> paired (append_point p t cs)"
proof (cases cs rule: rev_cases)
  case Nil
  then show ?thesis by (simp add: append_point_def paired_def)
next
  case (snoc ys y)
  assume "paired cs"
  with snoc show ?thesis by (simp add: append_point_snoc paired_def)
qed

lemma paired_snoc_empty: "paired cs \<Longrightarrow> paired (cs @ [Contour [] []])"
  by (simp add: paired_def)

lemma paired_exec: "paired cs \<Longrightarrow> paired (snd (exec k cs))"
  by (cases k)
    (auto simp add: pen_moveTo_def pen_lineTo_def pen_curveToOne_def pen_qCurveToOne_def
      paired_append_point paired_snoc_empty)

lemma paired_draw: "paired cs \<Longrightarrow> paired (snd (draw ks cs))"
proof (induction ks arbitrary: cs)
  case Nil
  then show ?case by simp
next
  case (Cons k ks)
  obtain r cs' where e: "exec k cs = (r, cs')" by (cases "exec k cs")
  from paired_exec [OF Cons.prems, of k] e have p: "paired cs'" by simp
  show ?case
  proof (cases r)
    case (Inl a)
    with e p show ?thesis by simp
  next
    case (Inr b)
    with e Cons.IH [OF p] show ?thesis by simp
  qed
qed

lemma paired_init: "paired init"
  by (simp add: paired_def init_def)

lemma sint_c_short: "- 32768 \<le> v \<Longrightarrow> v \<le> 32767 \<Longrightarrow> sint (c_short v) = v"
  by (simp add: c_short_def sint_sbintrunc' signed_take_bit_int_eq_self)

lemma otRound_nearest: "nearest_away v (otRound v)"
proof (cases "0 \<le> v")
  case True
  define q where "q = \<lfloor>v + 1 / 2\<rfloor>"
  have a: "real_of_int q \<le> v + 1 / 2" and b: "v + 1 / 2 < real_of_int q + 1"
    unfolding q_def by linarith+
  from b True have "- 1 < real_of_int q" by linarith
  then have "0 \<le> q" by linarith
  then have c: "\<bar>real_of_int q\<bar> = real_of_int q" by simp
  from a b have "\<bar>real_of_int q - v\<bar> \<le> 1 / 2" by linarith
  moreover have "\<bar>v\<bar> < \<bar>real_of_int q\<bar>" if "\<bar>real_of_int q - v\<bar> = 1 / 2"
    using that a b True c by (simp add: abs_if split: if_splits)
  ultimately have "nearest_away v q" by (simp add: nearest_away_def)
  with True show ?thesis by (simp add: otRound_def q_def)
next
  case False
  define q where "q = \<lceil>v - 1 / 2\<rceil>"
  have a: "real_of_int q - 1 < v - 1 / 2" and b: "v - 1 / 2 \<le> real_of_int q"
    unfolding q_def by linarith+
  from a False have "real_of_int q < 1" by linarith
  then have "q \<le> 0" by linarith
  then have c: "\<bar>real_of_int q\<bar> = - real_of_int q" by simp
  from a b have "\<bar>real_of_int q - v\<bar> \<le> 1 / 2" by linarith
  moreover have "\<bar>v\<bar> < \<bar>real_of_int q\<bar>" if "\<bar>real_of_int q - v\<bar> = 1 / 2"
    using that a b False c by (simp add: abs_if split: if_splits)
  ultimately have "nearest_away v q" by (simp add: nearest_away_def)
  with False show ?thesis by (simp add: otRound_def q_def)
qed

lemma nearest_away_unique:
  assumes "nearest_away v q"
  shows "q = otRound v"
proof -
  from assms have le: "\<bar>real_of_int q - v\<bar> \<le> 1 / 2"
    and tie: "\<bar>real_of_int q - v\<bar> = 1 / 2 \<Longrightarrow> \<bar>v\<bar> < \<bar>real_of_int q\<bar>"
    by (simp_all add: nearest_away_def)
  from le have lo: "v - 1 / 2 \<le> real_of_int q" and hi: "real_of_int q \<le> v + 1 / 2"
    by linarith+
  show ?thesis
  proof (cases "0 \<le> v")
    case True
    have "real_of_int q \<noteq> v - 1 / 2"
    proof
      assume e: "real_of_int q = v - 1 / 2"
      then have "\<bar>real_of_int q - v\<bar> = 1 / 2" by simp
      from tie [OF this] e True have "- 1 < real_of_int q" "real_of_int q < 0"
        by (simp_all add: abs_if split: if_splits)
      then have "- 1 < q" "q < 0" by linarith+
      then show False by linarith
    qed
    with lo have "v + 1 / 2 < real_of_int q + 1" by linarith
    with hi have "\<lfloor>v + 1 / 2\<rfloor> = q" by (intro floor_unique) auto
    with True show ?thesis by (simp add: otRound_def)
  next
    case False
    have "real_of_int q \<noteq> v + 1 / 2"
    proof
      assume e: "real_of_int q = v + 1 / 2"
      then have "\<bar>real_of_int q - v\<bar> = 1 / 2" by simp
      from tie [OF this] e False have "0 < real_of_int q" "real_of_int q < 1"
        by (simp_all add: abs_if split: if_splits)
      then have "0 < q" "q < 1" by linarith+
      then show False by linarith
    qed
    with hi have "real_of_int q - 1 < v - 1 / 2" by linarith
    with lo have "\<lceil>v - 1 / 2\<rceil> = q" by (intro ceiling_unique) auto
    with False show ?thesis by (simp add: otRound_def)
  qed
qed

lemma exec_append_init: "is_append k \<Longrightarrow> exec k init = (Inl IndexError, init)"
  by (cases k) (simp_all add: pen_lineTo_def pen_curveToOne_def pen_qCurveToOne_def init_def)

lemma sum_take_le:
  "sum_list (map (f :: 'a \<Rightarrow> nat) (take k xs)) \<le> sum_list (map f xs)"
proof -
  have "sum_list (map f xs) = sum_list (map f (take k xs)) + sum_list (map f (drop k xs))"
    by (metis append_take_drop_id map_append sum_list.append)
  then show ?thesis by simp
qed

lemma contour_ends_map:
  "contour_ends s cs =
     map (\<lambda>i. s + int (sum_list (map (\<lambda>c. length (points c)) (take (Suc i) cs))) - 1)
         [0..<length cs]"
  by (rule nth_equalityI) (simp_all add: length_contour_ends contour_ends_nth)

lemma last_contour_ends:
  "cs \<noteq> [] \<Longrightarrow>
   last (contour_ends s cs) = s + int (sum_list (map (\<lambda>c. length (points c)) cs)) - 1"
proof -
  assume ne: "cs \<noteq> []"
  then have "contour_ends s cs \<noteq> []"
    using length_contour_ends [of s cs] by auto
  then have "last (contour_ends s cs) = contour_ends s cs ! (length cs - 1)"
    by (simp add: last_conv_nth length_contour_ends)
  also have "\<dots> = s + int (sum_list (map (\<lambda>c. length (points c)) (take (Suc (length cs - 1)) cs))) - 1"
    using ne by (intro contour_ends_nth) simp
  finally show ?thesis using ne by simp
qed

lemma draw_lineTo_replicate:
  "draw (replicate n (LineTo p)) (cs @ [Contour ps ts]) =
     (Inr (), cs @ [Contour (ps @ replicate n p) (ts @ replicate n LINE)])"
proof (induction n arbitrary: ps ts)
  case 0
  then show ?case by simp
next
  case (Suc n)
  have "draw (replicate (Suc n) (LineTo p)) (cs @ [Contour ps ts])
      = draw (replicate n (LineTo p)) (cs @ [Contour (ps @ [p]) (ts @ [LINE])])"
    by (simp add: pen_lineTo_def append_point_snoc)
  also have "\<dots> = (Inr (), cs @ [Contour ((ps @ [p]) @ replicate n p) ((ts @ [LINE]) @ replicate n LINE)])"
    by (rule Suc.IH)
  finally show ?case by (simp add: replicate_app_Cons_same)
qed

lemma append_point_single:
  "append_point p t [c] = [Contour (points c @ [p]) (tags c @ [t])]"
  using append_point_snoc [of p t "[]" c] by simp

lemma draw_many_lines:
  "draw (MoveTo p # replicate n (LineTo p)) init =
     (Inr (), [Contour (replicate (Suc n) p) (replicate (Suc n) LINE)])"
  using draw_lineTo_replicate [of n p "[]" "[p]" "[LINE]"]
  by (simp add: pen_moveTo_def append_point_single init_def)

lemma UNIV_point_class: "UNIV = {LineEnd, CubicEnd, CubicControl, QuadEnd, QuadControl}"
  using point_class.exhaust by auto

lemma exec_tags:
  "exec k cs = (Inr (), cs') \<Longrightarrow>
   concat (map tags cs') = concat (map tags cs) @ map tag_of (spec_classes k)"
proof (cases "cs = []")
  case True
  assume "exec k cs = (Inr (), cs')"
  with True show ?thesis
    by (cases k)
      (auto simp add: pen_moveTo_def pen_lineTo_def pen_curveToOne_def pen_qCurveToOne_def
        append_point_single)
next
  case False
  then obtain ys y where cs: "cs = ys @ [y]" by (cases cs rule: rev_cases) auto
  assume "exec k cs = (Inr (), cs')"
  with cs show ?thesis
    by (cases k)
      (auto simp add: pen_moveTo_def pen_lineTo_def pen_curveToOne_def pen_qCurveToOne_def
        append_point_snoc append_point_snoc [of _ _ "ys @ [y]", simplified])
qed

lemma draw_tags:
  "draw ks cs = (Inr (), cs') \<Longrightarrow>
   concat (map tags cs') = concat (map tags cs) @ map tag_of (concat (map spec_classes ks))"
proof (induction ks arbitrary: cs)
  case Nil
  then show ?case by simp
next
  case (Cons k ks)
  obtain r cs1 where e: "exec k cs = (r, cs1)" by (cases "exec k cs")
  show ?case
  proof (cases r)
    case (Inl a)
    with e Cons.prems show ?thesis by simp
  next
    case (Inr u)
    with e Cons.prems have d: "draw ks cs1 = (Inr (), cs')" by simp
    from e Inr have "exec k cs = (Inr (), cs1)" by simp
    from exec_tags [OF this] Cons.IH [OF d] show ?thesis by simp
  qed
qed

lemma nearest_away_iff: "nearest_away v q \<longleftrightarrow> q = otRound v"
  using nearest_away_unique otRound_nearest by blast

lemma otRound_of_int: "otRound (real_of_int k) = k"
  by (simp add: otRound_def) linarith

lemma aligned_roundtrip: "aligned v \<Longrightarrow> real_of_int (otRound (v * 64)) / 64 = v"
proof -
  assume "aligned v"
  then have e: "v * 64 = real_of_int \<lfloor>v * 64\<rfloor>" unfolding aligned_def by (rule sym)
  have "otRound (v * 64) = \<lfloor>v * 64\<rfloor>" by (subst e) (rule otRound_of_int)
  with e show ?thesis by simp
qed

lemma outline_errors: "outline cs offset scale evenOdd = Inl e \<Longrightarrow> e = IndexError"
  by (auto simp add: outline_def Let_def c_array_def split: if_splits sum.splits)

section \<open>Facts about the scale that need not be finite\<close>

lemma otRound_py_errors: "otRound_py f = Inl e \<Longrightarrow> e = OverflowError \<or> e = ValueError"
  by (cases f) auto

lemma otRound_py_nonfinite:
  "\<not> is_finite f \<Longrightarrow> otRound_py f = Inl OverflowError \<or> otRound_py f = Inl ValueError"
  by (cases f) auto

lemma quantize_py_errors:
  "quantize_py offset scale p = Inl e \<Longrightarrow> e = OverflowError \<or> e = ValueError"
  by (auto simp add: quantize_py_def split: sum.splits dest: otRound_py_errors)

lemma quantize_all_errors:
  "quantize_all offset scale ps = Inl e \<Longrightarrow> e = OverflowError \<or> e = ValueError"
  by (induction ps arbitrary: e) (auto split: sum.splits dest: quantize_py_errors)

lemma outline_py_errors:
  "outline_py cs offset scale evenOdd = Inl e \<Longrightarrow>
   e = OverflowError \<or> e = ValueError \<or> e = IndexError"
  by (auto simp add: outline_py_def Let_def c_array_def split: if_splits sum.splits
      dest: quantize_all_errors)

lemma fmul_nonfinite_right: "\<not> is_finite b \<Longrightarrow> \<not> is_finite (fmul a b)"
  by (cases a; cases b) auto

lemma fmul_nonfinite_left: "\<not> is_finite a \<Longrightarrow> \<not> is_finite (fmul a (Finite 64))"
  by (cases a) auto

lemma quantize_py_nonfinite:
  assumes "\<not> (is_finite (fst scale) \<and> is_finite (snd scale))"
  shows "quantize_py offset scale p = Inl OverflowError \<or> quantize_py offset scale p = Inl ValueError"
proof (cases "otRound_py (fmul (fmul (fadd (fst p) (fst offset)) (fst scale)) (Finite 64))")
  case (Inl e)
  with otRound_py_errors [OF Inl] show ?thesis by (auto simp add: quantize_py_def)
next
  case (Inr qx)
  then have "is_finite (fmul (fmul (fadd (fst p) (fst offset)) (fst scale)) (Finite 64))"
    by (cases "fmul (fmul (fadd (fst p) (fst offset)) (fst scale)) (Finite 64)") auto
  with fmul_nonfinite_left fmul_nonfinite_right have "is_finite (fst scale)" by blast
  with assms have "\<not> is_finite (snd scale)" by simp
  then have "\<not> is_finite (fmul (fmul (fadd (snd p) (snd offset)) (snd scale)) (Finite 64))"
    by (intro fmul_nonfinite_left fmul_nonfinite_right)
  from otRound_py_nonfinite [OF this] Inr show ?thesis by (auto simp add: quantize_py_def)
qed

lemma outline_py_nonfinite:
  assumes "\<not> (is_finite sa \<and> is_finite sb)" and "concat (map points cs) \<noteq> []"
  shows "outline_py cs offset (Some (sa, sb)) evenOdd = Inl OverflowError
       \<or> outline_py cs offset (Some (sa, sb)) evenOdd = Inl ValueError"
proof -
  from assms(2) obtain p ps where c: "concat (map points cs) = p # ps"
    by (cases "concat (map points cs)") auto
  from assms(1) have "\<not> (is_finite (fst (sa, sb)) \<and> is_finite (snd (sa, sb)))" by simp
  from quantize_py_nonfinite [OF this, of "or_default offset (0, 0)" p] c show ?thesis
    by (auto simp add: outline_py_def Let_def or_default_def)
qed

lemma quantize_py_in_range:
  "in_range offset (sx, sy) p \<Longrightarrow>
   quantize_py offset (Finite sx, Finite sy) p = Inr (quantize_point offset (sx, sy) p)"
  by (simp add: in_range_def quantize_py_def quantize_point_def fadd_def overflow_def)

lemma quantize_all_in_range:
  "list_all (in_range offset (sx, sy)) ps \<Longrightarrow>
   quantize_all offset (Finite sx, Finite sy) ps = Inr (map (quantize_point offset (sx, sy)) ps)"
  by (induction ps) (simp_all add: quantize_py_in_range)

lemma outline_py_in_range:
  assumes "list_all (in_range (or_default offset (0, 0)) (sx, sy)) (concat (map points cs))"
  shows "outline_py cs offset (Some (Finite sx, Finite sy)) evenOdd
       = outline cs offset (Some (sx, sy)) evenOdd"
  using quantize_all_in_range [OF assms]
  by (simp add: outline_py_def outline_def Let_def or_default_def concat_quantized)

lemma outline_py_no_points:
  assumes "paired cs" and "concat (map points cs) = []"
  shows "\<exists>ol. outline_py cs offset scale evenOdd = Inr ol \<and> FT_Outline.points ol = []"
proof -
  from assms(2) have n: "sum_list (map (\<lambda>c. length (points c)) cs) = 0"
    using length_points_concat [of cs] by simp
  from assms have t: "concat (map tags cs) = []"
    using length_tags_paired [of cs] n by simp
  show ?thesis
    by (simp add: outline_py_def Let_def assms(2) n t c_array_def length_contour_ends)
qed

section \<open>Facts about the bitmap buffer\<close>

lemma buffer_canvas_of_buffer:
  "buffer BB BM cs offset w h evenOdd scale contain = Inr (raw, (wd, ht)) \<Longrightarrow>
   \<exists>off sc. buffer_canvas BB cs offset w h scale contain = Inr (off, sc, wd, ht)"
  by (auto simp add: buffer_def Let_def split: sum.splits prod.splits if_splits)

lemma buffer_canvas_contain:
  "buffer_canvas BB cs offset w h scale True = Inr (off, sc, wd, ht) \<Longrightarrow>
   \<exists>b0 b1 b2 b3. bbox BB cs = Inr (b0, b1, b2, b3)
      \<and> off = (min (fst (or_default offset (0, 0))) b0 * - 1,
                min (snd (or_default offset (0, 0))) b1 * - 1)
      \<and> sc = or_default scale (1, 1)
      \<and> wd = \<lceil>max w (b2 - b0) * fst (or_default scale (1, 1))\<rceil>
      \<and> ht = \<lceil>max h (b3 - b1) * snd (or_default scale (1, 1))\<rceil>"
  by (auto simp add: buffer_canvas_def Let_def split: sum.splits prod.splits)

lemma buffer_canvas_value:
  "bbox BB cs = Inr (b0, b1, b2, b3) \<Longrightarrow>
   buffer_canvas BB cs offset w h scale contain =
     Inr (if contain
          then (min (fst (or_default offset (0, 0))) b0 * - 1,
                min (snd (or_default offset (0, 0))) b1 * - 1)
          else or_default offset (0, 0),
          or_default scale (1, 1),
          \<lceil>(if contain then max w (b2 - b0) else w) * fst (or_default scale (1, 1))\<rceil>,
          \<lceil>(if contain then max h (b3 - b1) else h) * snd (or_default scale (1, 1))\<rceil>)"
  by (cases contain) (simp_all add: buffer_canvas_def Let_def split_beta)

lemma buffer_returns:
  assumes p: "paired cs" and w: "0 \<le> w" and h: "0 \<le> h"
    and s: "0 \<le> fst (or_default scale (1, 1))" "0 \<le> snd (or_default scale (1, 1))"
    and ok: "\<And>ol bm. fst (BM ol bm) = 0"
  shows "\<exists>raw wd ht. buffer BB BM cs offset w h evenOdd scale contain = Inr (raw, (wd, ht))"
proof -
  from outline_paired [OF p, of None None False]
  obtain ol0 where "outline cs None None False = Inr ol0" by blast
  then have "bbox BB cs = Inr (real_of_int (xMin (BB ol0)) / 64, real_of_int (yMin (BB ol0)) / 64,
      real_of_int (xMax (BB ol0)) / 64, real_of_int (yMax (BB ol0)) / 64)"
    by (simp add: bbox_def Let_def)
  then obtain b0 b1 b2 b3 where b: "bbox BB cs = Inr (b0, b1, b2, b3)"
    by blast
  define off where "off = (if contain
          then (min (fst (or_default offset (0, 0))) b0 * - 1,
                min (snd (or_default offset (0, 0))) b1 * - 1)
          else or_default offset (0, 0))"
  define wd where "wd = \<lceil>(if contain then max w (b2 - b0) else w) * fst (or_default scale (1, 1))\<rceil>"
  define ht where "ht = \<lceil>(if contain then max h (b3 - b1) else h) * snd (or_default scale (1, 1))\<rceil>"
  have c: "buffer_canvas BB cs offset w h scale contain = Inr (off, or_default scale (1, 1), wd, ht)"
    unfolding off_def wd_def ht_def by (rule buffer_canvas_value [OF b])
  from w s(1) have "0 \<le> (if contain then max w (b2 - b0) else w) * fst (or_default scale (1, 1))"
    by (intro mult_nonneg_nonneg) auto
  then have "0 \<le> wd" unfolding wd_def by (simp add: le_ceiling_iff)
  moreover from h s(2) have "0 \<le> (if contain then max h (b3 - b1) else h) * snd (or_default scale (1, 1))"
    by (intro mult_nonneg_nonneg) auto
  then have "0 \<le> ht" unfolding ht_def by (simp add: le_ceiling_iff)
  ultimately have nn: "\<not> wd * ht < 0" by (simp add: not_less)
  from outline_paired [OF p, of "Some off" "Some (or_default scale (1, 1))" evenOdd]
  obtain ol where o: "outline cs (Some off) (Some (or_default scale (1, 1))) evenOdd = Inr ol"
    by blast
  let ?bm = "\<lparr>rows = c_int ht, width = c_int wd, pitch = c_int wd,
      buffer_bytes = replicate (nat (wd * ht)) (0 :: 8 word), num_grays = c_short 256,
      pixel_mode = FT_PIXEL_MODE_GRAY, palette_mode = 0\<rparr>"
  obtain err raw where e: "BM ol ?bm = (err, raw)" by (cases "BM ol ?bm")
  with ok [of ol ?bm] have "err = 0" by simp
  with c nn o e show ?thesis by (simp add: buffer_def Let_def)
qed

lemma ceiling_scaled_ge:
  assumes "w \<le> m" and "s = 1 \<or> (1 \<le> s \<and> 0 \<le> w)"
  shows "w \<le> real_of_int \<lceil>m * s\<rceil>"
proof -
  have "w \<le> m * s"
  proof (cases "s = 1")
    case True
    with assms(1) show ?thesis by simp
  next
    case False
    with assms(2) have s: "1 \<le> s" and w: "0 \<le> w" by auto
    from w assms(1) have "0 \<le> m" by linarith
    with s have "m * 1 \<le> m * s" by (intro mult_left_mono) auto
    with assms(1) show ?thesis by linarith
  qed
  also have "\<dots> \<le> real_of_int \<lceil>m * s\<rceil>" by (rule le_of_int_ceiling)
  finally show ?thesis .
qed

text \<open>
  A square drawn with its lower left corner at \<open>(5, 5)\<close> and its upper right corner at
  \<open>(20, 20)\<close>, and what the methods compute for it when the library returns the box of
  its points.
\<close>

lemma square_drawn:
  "draw [MoveTo (5, 5), LineTo (20, 5), LineTo (20, 20), LineTo (5, 20)] init
     = (Inr (), [Contour [(5, 5), (20, 5), (20, 20), (5, 20)] [1, 1, 1, 1]])"
  by (simp add: pen_moveTo_def pen_lineTo_def append_point_def init_def LINE_def)

lemma square_outline:
  "outline [Contour [(5, 5), (20, 5), (20, 20), (5, 20)] [1, 1, 1, 1]] off sc False
     = Inr \<lparr>n_contours = 1, n_points = 4,
            FT_Outline.points =
              map (quantize_point (or_default off (0, 0)) (or_default sc (1, 1)))
                [(5, 5), (20, 5), (20, 20), (5, 20)],
            FT_Outline.tags = [1, 1, 1, 1], contours = [3], flags = FT_OUTLINE_NONE\<rparr>"
proof -
  have "paired [Contour [(5, 5), (20, 5), (20, 20), (5, 20)] [1, 1, 1, 1]]"
    by (simp add: paired_def)
  from outline_paired [OF this, of off sc False] show ?thesis
    by (simp add: c_short_def c_ubyte_def)
qed

lemma square_bbox:
  "bbox points_box [Contour [(5, 5), (20, 5), (20, 20), (5, 20)] [1, 1, 1, 1]]
     = Inr (5, 5, 20, 20)"
  by (simp add: bbox_def square_outline points_box_def or_default_def quantize_point_def
      otRound_def FT_Pos_def)

lemma square_canvas:
  "buffer_canvas points_box [Contour [(5, 5), (20, 5), (20, 20), (5, 20)] [1, 1, 1, 1]]
     None 10 10 None True = Inr ((0, 0), (1, 1), 15, 15)"
  by (simp add: buffer_canvas_def square_bbox or_default_def)

lemma square_canvas_half:
  "buffer_canvas points_box [Contour [(5, 5), (20, 5), (20, 20), (5, 20)] [1, 1, 1, 1]]
     None 100 100 (Some (1 / 2, 1 / 2)) True = Inr ((0, 0), (1 / 2, 1 / 2), 50, 50)"
  by (simp add: buffer_canvas_def square_bbox or_default_def)

lemma square_buffer:
  "buffer points_box blank_bitmap [Contour [(5, 5), (20, 5), (20, 20), (5, 20)] [1, 1, 1, 1]]
     None 10 10 False None True = Inr (replicate 225 0, (15, 15))"
  by (simp add: buffer_def square_canvas square_outline blank_bitmap_def)

section \<open>Facts about the boxes of aligned points\<close>

lemma quantize_aligned:
  "aligned (fst q) \<Longrightarrow> aligned (snd q) \<Longrightarrow>
   real_of_int (vec_x (quantize_point (0, 0) (1, 1) q)) / 64 = fst q
   \<and> real_of_int (vec_y (quantize_point (0, 0) (1, 1) q)) / 64 = snd q"
  by (simp add: quantize_point_def FT_Pos_def aligned_roundtrip)

lemma min_dequantized: "real_of_int (min a b) / 64 = min (real_of_int a / 64) (real_of_int b / 64)"
  by (simp add: min_def)

lemma max_dequantized: "real_of_int (max a b) / 64 = max (real_of_int a / 64) (real_of_int b / 64)"
  by (simp add: max_def)

lemma fold_dequantized:
  assumes "list_all (\<lambda>q. aligned (fst q) \<and> aligned (snd q)) ps"
  shows "real_of_int (fold (\<lambda>q. min (vec_x q)) (map (quantize_point (0, 0) (1, 1)) ps) a) / 64
           = fold (\<lambda>q. min (fst q)) ps (real_of_int a / 64)"
    and "real_of_int (fold (\<lambda>q. min (vec_y q)) (map (quantize_point (0, 0) (1, 1)) ps) a) / 64
           = fold (\<lambda>q. min (snd q)) ps (real_of_int a / 64)"
    and "real_of_int (fold (\<lambda>q. max (vec_x q)) (map (quantize_point (0, 0) (1, 1)) ps) a) / 64
           = fold (\<lambda>q. max (fst q)) ps (real_of_int a / 64)"
    and "real_of_int (fold (\<lambda>q. max (vec_y q)) (map (quantize_point (0, 0) (1, 1)) ps) a) / 64
           = fold (\<lambda>q. max (snd q)) ps (real_of_int a / 64)"
  using assms
proof (induction ps arbitrary: a)
  case Nil
  {
    case 1 show ?case by simp
  next
    case 2 show ?case by simp
  next
    case 3 show ?case by simp
  next
    case 4 show ?case by simp
  }
next
  case (Cons q ps)
  {
    case 1
    then have al: "aligned (fst q)" "aligned (snd q)"
      and r: "list_all (\<lambda>q. aligned (fst q) \<and> aligned (snd q)) ps" by simp_all
    from quantize_aligned [OF al] Cons.IH(1) [OF r] show ?case
      by (simp add: min_dequantized)
  next
    case 2
    then have al: "aligned (fst q)" "aligned (snd q)"
      and r: "list_all (\<lambda>q. aligned (fst q) \<and> aligned (snd q)) ps" by simp_all
    from quantize_aligned [OF al] Cons.IH(2) [OF r] show ?case
      by (simp add: min_dequantized)
  next
    case 3
    then have al: "aligned (fst q)" "aligned (snd q)"
      and r: "list_all (\<lambda>q. aligned (fst q) \<and> aligned (snd q)) ps" by simp_all
    from quantize_aligned [OF al] Cons.IH(3) [OF r] show ?case
      by (simp add: max_dequantized)
  next
    case 4
    then have al: "aligned (fst q)" "aligned (snd q)"
      and r: "list_all (\<lambda>q. aligned (fst q) \<and> aligned (snd q)) ps" by simp_all
    from quantize_aligned [OF al] Cons.IH(4) [OF r] show ?case
      by (simp add: max_dequantized)
  }
qed

lemma points_box_roundtrip:
  assumes p: "paired cs" and c: "concat (map points cs) = p # ps"
    and al: "list_all (\<lambda>q. aligned (fst q) \<and> aligned (snd q)) (p # ps)"
  shows "bbox points_box cs =
      Inr (fold (\<lambda>q. min (fst q)) ps (fst p), fold (\<lambda>q. min (snd q)) ps (snd p),
           fold (\<lambda>q. max (fst q)) ps (fst p), fold (\<lambda>q. max (snd q)) ps (snd p))"
    and "cbox points_box cs =
      Inr (fold (\<lambda>q. min (fst q)) ps (fst p), fold (\<lambda>q. min (snd q)) ps (snd p),
           fold (\<lambda>q. max (fst q)) ps (fst p), fold (\<lambda>q. max (snd q)) ps (snd p))"
proof -
  let ?Q = "quantize_point (0, 0) (1, 1)"
  from al have a: "aligned (fst p)" "aligned (snd p)"
    and r: "list_all (\<lambda>q. aligned (fst q) \<and> aligned (snd q)) ps" by simp_all
  from outline_paired [OF p, of None None False] c
  obtain ol where o: "outline cs None None False = Inr ol"
    and pts: "FT_Outline.points ol = ?Q p # map ?Q ps"
    by (simp add: or_default_def)
  from pts have b: "points_box ol =
      \<lparr>xMin = fold (\<lambda>q. min (vec_x q)) (map ?Q ps) (vec_x (?Q p)),
       yMin = fold (\<lambda>q. min (vec_y q)) (map ?Q ps) (vec_y (?Q p)),
       xMax = fold (\<lambda>q. max (vec_x q)) (map ?Q ps) (vec_x (?Q p)),
       yMax = fold (\<lambda>q. max (vec_y q)) (map ?Q ps) (vec_y (?Q p))\<rparr>"
    by (simp add: points_box_def)
  from quantize_aligned [OF a] have x: "real_of_int (vec_x (?Q p)) / 64 = fst p"
    and y: "real_of_int (vec_y (?Q p)) / 64 = snd p" by simp_all
  show "bbox points_box cs =
      Inr (fold (\<lambda>q. min (fst q)) ps (fst p), fold (\<lambda>q. min (snd q)) ps (snd p),
           fold (\<lambda>q. max (fst q)) ps (fst p), fold (\<lambda>q. max (snd q)) ps (snd p))"
    by (simp add: bbox_def o b fold_dequantized [OF r] x y)
  show "cbox points_box cs =
      Inr (fold (\<lambda>q. min (fst q)) ps (fst p), fold (\<lambda>q. min (snd q)) ps (snd p),
           fold (\<lambda>q. max (fst q)) ps (fst p), fold (\<lambda>q. max (snd q)) ps (snd p))"
    by (simp add: cbox_def o b fold_dequantized [OF r] x y)
qed

lemma outline_roundtrip:
  assumes p: "paired cs"
    and al: "list_all (\<lambda>q. aligned (fst q) \<and> aligned (snd q)) (concat (map points cs))"
  shows "\<exists>ol. outline cs None None evenOdd = Inr ol
           \<and> map (\<lambda>q. (real_of_int (vec_x q) / 64, real_of_int (vec_y q) / 64))
                 (FT_Outline.points ol) = concat (map points cs)"
proof -
  have "map (\<lambda>q. (real_of_int (vec_x q) / 64, real_of_int (vec_y q) / 64))
      (map (quantize_point (0, 0) (1, 1)) ps) = ps"
    if "list_all (\<lambda>p. aligned (fst p) \<and> aligned (snd p)) ps" for ps
    using that
    by (induction ps) (simp_all add: quantize_point_def FT_Pos_def aligned_roundtrip)
  from this [OF al] outline_paired [OF p, of None None evenOdd] show ?thesis
    by (simp add: or_default_def)
qed

section \<open>The claims\<close>

text \<open>
  Claim C1. \<open>otRound\<close> is rounding to the nearest integer with a tie going away from
  zero, and no other integer is; and for every pen the drawing methods can build,
  \<^verbatim>\<open>outline\<close> returns an outline whose points are, in contour order, the points of the
  pen with each coordinate replaced by \<open>otRound ((coordinate + offset) * scale * 64)\<close>,
  the x and the y coordinate each with its own offset and scale. The result is a function
  of the arguments alone, so equal inputs give equal outlines.
\<close>

theorem outline_quantizes:
  "(nearest_away v q \<longleftrightarrow> q = otRound v)
   \<and> (paired cs \<longrightarrow>
        (\<exists>ol. outline cs offset scale evenOdd = Inr ol
           \<and> FT_Outline.points ol =
               map (\<lambda>p. FT_Vector
                      (otRound ((fst p + fst (or_default offset (0, 0)))
                                * fst (or_default scale (1, 1)) * 64))
                      (otRound ((snd p + snd (or_default offset (0, 0)))
                                * snd (or_default scale (1, 1)) * 64)))
                   (concat (map points cs))))"
proof -
  have "\<exists>ol. outline cs offset scale evenOdd = Inr ol
           \<and> FT_Outline.points ol =
               map (\<lambda>p. FT_Vector
                      (otRound ((fst p + fst (or_default offset (0, 0)))
                                * fst (or_default scale (1, 1)) * 64))
                      (otRound ((snd p + snd (or_default offset (0, 0)))
                                * snd (or_default scale (1, 1)) * 64)))
                   (concat (map points cs))"
    if "paired cs"
    using outline_paired [OF that, of offset scale evenOdd]
    by (simp add: quantize_point_def FT_Pos_def)
  with nearest_away_iff show ?thesis by blast
qed

theorem outline_quantizes_witness:
  "nearest_away (1 / 2) 1 \<and> nearest_away (- 1 / 2) (- 1) \<and> \<not> nearest_away (- 1 / 2) 0
   \<and> paired [Contour [(1 / 128, - 1 / 128), (5 / 2, - 3)] [1, 1]]
   \<and> (\<exists>ol. outline [Contour [(1 / 128, - 1 / 128), (5 / 2, - 3)] [1, 1]] None None False = Inr ol
         \<and> FT_Outline.points ol = [FT_Vector 1 (- 1), FT_Vector 160 (- 192)])
   \<and> (\<exists>ol. outline [Contour [(1 / 128, - 1 / 128), (5 / 2, - 3)] [1, 1]]
              (Some (1, - 1)) (Some (2, 1 / 2)) False = Inr ol
         \<and> FT_Outline.points ol = [FT_Vector 129 (- 32), FT_Vector 448 (- 128)])"
proof -
  let ?cs = "[Contour [(1 / 128, - 1 / 128), (5 / 2, - 3)] [1, 1]]"
  have p: "paired ?cs" by (simp add: paired_def)
  have r: "otRound (1 / 2) = 1" "otRound (- 1 / 2) = - 1"
    by (simp_all add: otRound_def ceiling_minus)
  from outline_quantizes [of "1 / 2" 1 ?cs None None False]
    outline_quantizes [of "- 1 / 2" "- 1" ?cs "Some (1, - 1)" "Some (2, 1 / 2)" False]
    outline_quantizes [of "- 1 / 2" 0]
    p r
  show ?thesis by (simp add: or_default_def otRound_def ceiling_minus)
qed

text \<open>
  Claim C2. In every state of the pen, \<^verbatim>\<open>_moveTo\<close> starts a new contour whose only
  point is tagged \<open>LINE\<close>; and when a contour is open, \<^verbatim>\<open>_lineTo\<close> appends one point
  tagged \<open>LINE\<close> to the last contour, \<^verbatim>\<open>_curveToOne\<close> appends exactly three points
  tagged \<open>OFFCURVE\<close>, \<open>OFFCURVE\<close>, \<open>CURVE\<close> in that order, and \<^verbatim>\<open>_qCurveToOne\<close>
  appends exactly two points tagged \<open>QOFFCURVE\<close>, \<open>QCURVE\<close> in that order; the
  earlier contours and the earlier points of the last contour stay as they were.
\<close>

theorem pen_methods_append:
  "pen_moveTo pt cs = (Inr (), cs @ [Contour [pt] [LINE]])
   \<and> (cs \<noteq> [] \<longrightarrow>
        pen_lineTo pt cs =
          (Inr (), butlast cs @ [Contour (points (last cs) @ [pt]) (tags (last cs) @ [LINE])])
      \<and> pen_curveToOne p1 p2 p3 cs =
          (Inr (), butlast cs @ [Contour (points (last cs) @ [p1, p2, p3])
                                         (tags (last cs) @ [OFFCURVE, OFFCURVE, CURVE])])
      \<and> pen_qCurveToOne p1 p2 cs =
          (Inr (), butlast cs @ [Contour (points (last cs) @ [p1, p2])
                                         (tags (last cs) @ [QOFFCURVE, QCURVE])]))"
proof -
  have m: "pen_moveTo pt cs = (Inr (), cs @ [Contour [pt] [LINE]])"
    by (simp add: pen_moveTo_def append_point_snoc)
  have a: "pen_lineTo pt cs =
      (Inr (), butlast cs @ [Contour (points (last cs) @ [pt]) (tags (last cs) @ [LINE])])"
    if "cs \<noteq> []"
    using that by (simp add: pen_lineTo_def append_point_last)
  have b: "pen_curveToOne p1 p2 p3 cs =
      (Inr (), butlast cs @ [Contour (points (last cs) @ [p1, p2, p3])
                                     (tags (last cs) @ [OFFCURVE, OFFCURVE, CURVE])])"
    if "cs \<noteq> []"
    using that by (simp add: pen_curveToOne_def append_point_last)
  have c: "pen_qCurveToOne p1 p2 cs =
      (Inr (), butlast cs @ [Contour (points (last cs) @ [p1, p2])
                                     (tags (last cs) @ [QOFFCURVE, QCURVE])])"
    if "cs \<noteq> []"
    using that by (simp add: pen_qCurveToOne_def append_point_last)
  from m a b c show ?thesis by blast
qed

theorem pen_methods_append_witness:
  "[Contour [(0, 0)] [1]] \<noteq> []
   \<and> pen_moveTo (5, 5) [Contour [(0, 0)] [1]]
       = (Inr (), [Contour [(0, 0)] [1], Contour [(5, 5)] [1]])
   \<and> pen_lineTo (5, 5) [Contour [(0, 0)] [1]]
       = (Inr (), [Contour [(0, 0), (5, 5)] [1, 1]])
   \<and> pen_curveToOne (0, 10) (10, 10) (10, 0) [Contour [(0, 0)] [1]]
       = (Inr (), [Contour [(0, 0), (0, 10), (10, 10), (10, 0)] [1, 2, 2, 3]])
   \<and> pen_qCurveToOne (0, 10) (10, 10) [Contour [(0, 0)] [1]]
       = (Inr (), [Contour [(0, 0), (0, 10), (10, 10)] [1, 0, 1]])"
  using pen_methods_append [of "(5, 5)" "[Contour [(0, 0)] [1]]" "(0, 10)" "(10, 10)" "(10, 0)"]
  by (simp add: LINE_def CURVE_def OFFCURVE_def QCURVE_def QOFFCURVE_def)

text \<open>
  Claim C3, as the code has it. For every pen the drawing methods can build that holds
  at most 32767 points, \<^verbatim>\<open>outline\<close> returns an outline whose point count, read as
  the signed 16-bit value it is stored as, is the sum of the contours' point counts, whose
  point and tag arrays have that length, whose contour-end indices are the running sums
  of the contours' point counts minus one, and whose last contour-end index is the
  point count minus one. \<^verbatim>\<open>ctypes.c_short\<close> keeps 16 bits, so a pen with more points
  gets wrapped counts: 32768 points are stored as \<open>-32768\<close>.
\<close>

theorem outline_counts:
  assumes "paired cs" and "sum_list (map (\<lambda>c. length (points c)) cs) \<le> 32767"
  shows "\<exists>ol. outline cs offset scale evenOdd = Inr ol
     \<and> sint (n_points ol) = int (sum_list (map (\<lambda>c. length (points c)) cs))
     \<and> length (FT_Outline.points ol) = sum_list (map (\<lambda>c. length (points c)) cs)
     \<and> length (FT_Outline.tags ol) = sum_list (map (\<lambda>c. length (points c)) cs)
     \<and> map sint (contours ol) =
         map (\<lambda>i. int (sum_list (map (\<lambda>c. length (points c)) (take (Suc i) cs))) - 1)
             [0..<length cs]
     \<and> (cs \<noteq> [] \<longrightarrow> sint (last (contours ol)) = sint (n_points ol) - 1)"
proof -
  let ?n = "sum_list (map (\<lambda>c. length (points c)) cs)"
  let ?ol = "\<lparr>n_contours = c_short (int (length cs)), n_points = c_short (int ?n),
      FT_Outline.points =
        map (quantize_point (or_default offset (0, 0)) (or_default scale (1, 1)))
            (concat (map points cs)),
      FT_Outline.tags = map c_ubyte (concat (map tags cs)),
      contours = map c_short (contour_ends 0 cs),
      flags = (if evenOdd then FT_OUTLINE_EVEN_ODD_FILL else FT_OUTLINE_NONE)\<rparr>"
  have o: "outline cs offset scale evenOdd = Inr ?ol"
    by (rule outline_paired [OF assms(1)])
  have n: "sint (c_short (int ?n)) = int ?n"
    using assms(2) by (intro sint_c_short) simp_all
  have part: "sint (c_short (int (sum_list (map (\<lambda>c. length (points c)) (take k cs))) - 1))
      = int (sum_list (map (\<lambda>c. length (points c)) (take k cs))) - 1" for k
  proof -
    have "sum_list (map (\<lambda>c. length (points c)) (take k cs)) \<le> 32767"
      using sum_take_le [of "\<lambda>c. length (points c)" k cs] assms(2) by linarith
    then show ?thesis by (intro sint_c_short) simp_all
  qed
  have e: "map sint (map c_short (contour_ends 0 cs)) =
      map (\<lambda>i. int (sum_list (map (\<lambda>c. length (points c)) (take (Suc i) cs))) - 1)
          [0..<length cs]"
    by (simp add: contour_ends_map part)
  have l: "sint (last (map c_short (contour_ends 0 cs))) = int ?n - 1" if "cs \<noteq> []"
  proof -
    from that have "contour_ends 0 cs \<noteq> []"
      using length_contour_ends [of 0 cs] by auto
    then have "last (map c_short (contour_ends 0 cs)) = c_short (last (contour_ends 0 cs))"
      by (simp add: last_map)
    also have "\<dots> = c_short (int ?n - 1)"
      using that by (simp add: last_contour_ends)
    finally show ?thesis using part [of "length cs"] by simp
  qed
  have "sint (n_points ?ol) = int ?n" using n by simp
  moreover have "length (FT_Outline.points ?ol) = ?n" by (simp add: length_points_concat)
  moreover have "length (FT_Outline.tags ?ol) = ?n"
    using assms(1) by (simp add: length_tags_paired)
  moreover have "map sint (contours ?ol) =
      map (\<lambda>i. int (sum_list (map (\<lambda>c. length (points c)) (take (Suc i) cs))) - 1)
          [0..<length cs]"
    using e by simp
  moreover have "cs \<noteq> [] \<longrightarrow> sint (last (contours ?ol)) = sint (n_points ?ol) - 1"
    using l n by simp
  ultimately show ?thesis using o by blast
qed

theorem outline_counts_witness:
  "paired [Contour [(0, 0), (10, 0), (10, 10), (0, 10)] [1, 1, 1, 1],
           Contour [(2, 2), (4, 2), (3, 4)] [1, 1, 1]]
   \<and> sum_list (map (\<lambda>c. length (points c))
        [Contour [(0, 0), (10, 0), (10, 10), (0, 10)] [1, 1, 1, 1],
         Contour [(2, 2), (4, 2), (3, 4)] [1, 1, 1]]) \<le> 32767
   \<and> (\<exists>ol. outline [Contour [(0, 0), (10, 0), (10, 10), (0, 10)] [1, 1, 1, 1],
                     Contour [(2, 2), (4, 2), (3, 4)] [1, 1, 1]] None None False = Inr ol
         \<and> sint (n_points ol) = 7 \<and> length (FT_Outline.points ol) = 7
         \<and> map sint (contours ol) = [3, 6] \<and> sint (last (contours ol)) = 6)"
proof -
  let ?cs = "[Contour [(0, 0), (10, 0), (10, 10), (0, 10)] [1, 1, 1, 1],
              Contour [(2, 2), (4, 2), (3, 4)] [1, 1, 1]]"
  have p: "paired ?cs" by (simp add: paired_def)
  have n: "sum_list (map (\<lambda>c. length (points c)) ?cs) \<le> 32767" by simp
  from outline_counts [OF p n, of None None False] p n show ?thesis
    by (auto simp: upt_rec [of 0] upt_rec [of 1] upt_rec [of 2])
qed

theorem outline_counts_counterexample:
  "draw (MoveTo (0, 0) # replicate 32767 (LineTo (0, 0))) init
     = (Inr (), [Contour (replicate 32768 (0, 0)) (replicate 32768 LINE)])
   \<and> sum_list (map (\<lambda>c. length (points c))
        [Contour (replicate 32768 (0, 0)) (replicate 32768 LINE)]) = 32768
   \<and> (case outline [Contour (replicate 32768 (0, 0)) (replicate 32768 LINE)] None None False of
        Inl e \<Rightarrow> False
      | Inr ol \<Rightarrow> sint (n_points ol) = - 32768 \<and> sint (last (contours ol)) = 32767)"
proof -
  have "paired [Contour (replicate 32768 (0, 0)) (replicate 32768 LINE)]"
    by (simp add: paired_def)
  from outline_paired [OF this, of None None False] draw_many_lines [of "(0, 0)" 32767]
  show ?thesis by (simp add: c_short_def)
qed

text \<open>
  Claim C4, as the code has it. On a pen that has seen no \<^verbatim>\<open>_moveTo\<close>, each of
  \<^verbatim>\<open>_lineTo\<close>, \<^verbatim>\<open>_curveToOne\<close> and \<^verbatim>\<open>_qCurveToOne\<close> fails with Python's
  \<open>IndexError\<close>, raised by \<^verbatim>\<open>self.contours[-1]\<close>, and leaves the contour list
  empty as it was; so does every non-empty sequence of append commands. The error is
  not the \<open>NoOpenContourError\<close> of the specification, which the source does not
  define.
\<close>

theorem append_before_moveTo:
  "pen_lineTo pt init = (Inl IndexError, init)
   \<and> pen_curveToOne p1 p2 p3 init = (Inl IndexError, init)
   \<and> pen_qCurveToOne p1 p2 init = (Inl IndexError, init)
   \<and> (list_all is_append ks \<and> ks \<noteq> [] \<longrightarrow> draw ks init = (Inl IndexError, init))"
proof -
  have "draw ks init = (Inl IndexError, init)" if "list_all is_append ks" "ks \<noteq> []"
  proof (cases ks)
    case Nil
    with that show ?thesis by simp
  next
    case (Cons k ks')
    with that have "is_append k" by simp
    with Cons show ?thesis by (simp add: exec_append_init)
  qed
  then show ?thesis
    by (simp add: pen_lineTo_def pen_curveToOne_def pen_qCurveToOne_def init_def)
qed

theorem append_before_moveTo_witness:
  "list_all is_append [LineTo (1, 2), QCurveToOne (3, 4) (5, 6)]
   \<and> [LineTo (1, 2), QCurveToOne (3, 4) (5, 6)] \<noteq> []
   \<and> draw [LineTo (1, 2), QCurveToOne (3, 4) (5, 6)] init = (Inl IndexError, init)
   \<and> pen_lineTo (1, 2) init = (Inl IndexError, init)"
  using append_before_moveTo [of "(1, 2)" "(3, 4)" "(5, 6)" "(7, 8)" "[LineTo (1, 2), QCurveToOne (3, 4) (5, 6)]"]
  by simp

theorem append_before_moveTo_counterexample:
  "fst (pen_lineTo (1, 2) init) \<noteq> Inl NoOpenContourError"
  by (simp add: pen_lineTo_def init_def)

text \<open>
  Claim C5. When \<^verbatim>\<open>buffer\<close> is called with \<^verbatim>\<open>contain=True\<close> and returns a bitmap,
  the bitmap is at least as wide and as high as requested, for every pen, offset, width
  and height, whatever the FreeType functions return. The scale is the default one,
  as the claim has no scale; under any scale the width and the height that auto-sizing
  hands to the scaling step are at least the requested ones, and the bitmap's are these
  times the scale, rounded up. \<^verbatim>\<open>buffer\<close> does return a bitmap for every pen the
  drawing methods can build when the requested width and height are not negative and
  the library reports success.
\<close>

theorem contain_never_shrinks:
  "(buffer BB BM cs offset w h evenOdd None True = Inr (raw, (wd, ht)) \<longrightarrow>
      w \<le> real_of_int wd \<and> h \<le> real_of_int ht)
   \<and> (buffer_canvas BB cs offset w h scale True = Inr (off, sc, cw, ch) \<longrightarrow>
        (\<exists>aw ah. w \<le> aw \<and> h \<le> ah \<and> cw = \<lceil>aw * fst sc\<rceil> \<and> ch = \<lceil>ah * snd sc\<rceil>))
   \<and> (paired cs \<and> 0 \<le> w \<and> 0 \<le> h \<and> (\<forall>ol bm. fst (BM ol bm) = 0) \<longrightarrow>
        (\<exists>raw' wd' ht'. buffer BB BM cs offset w h evenOdd None True = Inr (raw', (wd', ht'))))"
proof -
  have a: "w \<le> real_of_int wd \<and> h \<le> real_of_int ht"
    if b: "buffer BB BM cs offset w h evenOdd None True = Inr (raw, (wd, ht))"
  proof -
    from buffer_canvas_of_buffer [OF b] obtain off' sc'
      where "buffer_canvas BB cs offset w h None True = Inr (off', sc', wd, ht)" by blast
    from buffer_canvas_contain [OF this] obtain b0 b1 b2 b3
      where wd: "wd = \<lceil>max w (b2 - b0) * fst (or_default None (1 :: real, 1 :: real))\<rceil>"
        and ht: "ht = \<lceil>max h (b3 - b1) * snd (or_default None (1 :: real, 1 :: real))\<rceil>" by blast
    have s: "fst (or_default None (1 :: real, 1 :: real)) = 1"
      "snd (or_default None (1 :: real, 1 :: real)) = 1"
      by (simp_all add: or_default_def)
    have "w \<le> real_of_int wd" unfolding wd by (rule ceiling_scaled_ge) (simp_all add: s)
    moreover have "h \<le> real_of_int ht" unfolding ht by (rule ceiling_scaled_ge) (simp_all add: s)
    ultimately show ?thesis by simp
  qed
  have c: "\<exists>aw ah. w \<le> aw \<and> h \<le> ah \<and> cw = \<lceil>aw * fst sc\<rceil> \<and> ch = \<lceil>ah * snd sc\<rceil>"
    if "buffer_canvas BB cs offset w h scale True = Inr (off, sc, cw, ch)"
  proof -
    from buffer_canvas_contain [OF that] obtain b0 b1 b2 b3
      where "sc = or_default scale (1, 1)"
        and "cw = \<lceil>max w (b2 - b0) * fst (or_default scale (1, 1))\<rceil>"
        and "ch = \<lceil>max h (b3 - b1) * snd (or_default scale (1, 1))\<rceil>" by blast
    then have "w \<le> max w (b2 - b0) \<and> h \<le> max h (b3 - b1)
        \<and> cw = \<lceil>max w (b2 - b0) * fst sc\<rceil> \<and> ch = \<lceil>max h (b3 - b1) * snd sc\<rceil>"
      by simp
    then show ?thesis by blast
  qed
  have r: "\<exists>raw' wd' ht'. buffer BB BM cs offset w h evenOdd None True = Inr (raw', (wd', ht'))"
    if "paired cs" "0 \<le> w" "0 \<le> h" "\<forall>ol bm. fst (BM ol bm) = 0"
    using that by (intro buffer_returns) (auto simp add: or_default_def)
  from a c r show ?thesis by blast
qed

theorem contain_never_shrinks_witness:
  "paired [Contour [(5, 5), (20, 5), (20, 20), (5, 20)] [1, 1, 1, 1]]
   \<and> (\<forall>ol bm. fst (blank_bitmap ol bm) = 0)
   \<and> buffer points_box blank_bitmap [Contour [(5, 5), (20, 5), (20, 20), (5, 20)] [1, 1, 1, 1]]
       None 10 10 False None True = Inr (replicate 225 0, (15, 15))
   \<and> (10 :: real) \<le> real_of_int 15
   \<and> buffer_canvas points_box [Contour [(5, 5), (20, 5), (20, 20), (5, 20)] [1, 1, 1, 1]]
       None 100 100 (Some (1 / 2, 1 / 2)) True = Inr ((0, 0), (1 / 2, 1 / 2), 50, 50)
   \<and> (\<exists>aw ah. (100 :: real) \<le> aw \<and> (100 :: real) \<le> ah
         \<and> (50 :: int) = \<lceil>aw * (1 / 2)\<rceil> \<and> (50 :: int) = \<lceil>ah * (1 / 2)\<rceil>)"
proof -
  let ?cs = "[Contour [(5, 5), (20, 5), (20, 20), (5, 20)] [1, 1, 1, 1]]"
  have p: "paired ?cs" by (simp add: paired_def)
  have b: "\<forall>ol bm. fst (blank_bitmap ol bm) = 0" by (simp add: blank_bitmap_def)
  from contain_never_shrinks [of points_box blank_bitmap ?cs None 10 10 False "replicate 225 0" 15 15]
    contain_never_shrinks [of points_box blank_bitmap ?cs None 100 100 False _ _ _
      "Some (1 / 2, 1 / 2)" "(0, 0)" "(1 / 2, 1 / 2)" 50 50]
    square_buffer square_canvas_half p b
  show ?thesis by simp
qed

text \<open>
  Claim C6 fails on the code. The square from \<open>(5, 5)\<close> to \<open>(20, 20)\<close>, drawn with
  one \<^verbatim>\<open>_moveTo\<close> and three \<^verbatim>\<open>_lineTo\<close>, has the exact box \<open>(5, 5, 20, 20)\<close>. With
  \<^verbatim>\<open>width=10, height=10, contain=True\<close> and the default offset and scale, \<^verbatim>\<open>buffer\<close>
  keeps the offset \<open>(0, 0)\<close> and makes the bitmap 15 by 15 pixels, so the box, which
  reaches to 20, does not lie within the canvas.
\<close>

theorem contain_clips_square:
  "draw [MoveTo (5, 5), LineTo (20, 5), LineTo (20, 20), LineTo (5, 20)] init
     = (Inr (), [Contour [(5, 5), (20, 5), (20, 20), (5, 20)] [1, 1, 1, 1]])
   \<and> bbox points_box [Contour [(5, 5), (20, 5), (20, 20), (5, 20)] [1, 1, 1, 1]]
     = Inr (5, 5, 20, 20)
   \<and> buffer_canvas points_box [Contour [(5, 5), (20, 5), (20, 20), (5, 20)] [1, 1, 1, 1]]
       None 10 10 None True = Inr ((0, 0), (1, 1), 15, 15)
   \<and> \<not> fits_canvas (5, 5, 20, 20) (0, 0) (1, 1) 15 15"
  using square_drawn square_bbox square_canvas by (simp add: fits_canvas_def)

text \<open>
  Claim C7. A point whose coordinates are exact multiples of 1/64, drawn alone, comes
  back exactly from \<^verbatim>\<open>bbox\<close> and from \<^verbatim>\<open>cbox\<close>, which quantize it with
  \<^verbatim>\<open>outline()\<close> under the identity transform and divide the library's box by 64. For
  every pen the drawing methods can build whose coordinates are all such multiples,
  \<^verbatim>\<open>cbox\<close> is exactly the box of the pen's points, so is \<^verbatim>\<open>bbox\<close> when all points
  are line endpoints, and the points of \<^verbatim>\<open>outline()\<close> divided by 64 are the points of
  the pen. The library is the box of the points here.
\<close>

theorem quantize_roundtrip:
  "(aligned x \<and> aligned y \<longrightarrow>
      bbox points_box [Contour [(x, y)] [LINE]] = Inr (x, y, x, y)
    \<and> cbox points_box [Contour [(x, y)] [LINE]] = Inr (x, y, x, y))
   \<and> (paired cs \<and> concat (map points cs) = p # ps
       \<and> list_all (\<lambda>q. aligned (fst q) \<and> aligned (snd q)) (p # ps) \<longrightarrow>
        cbox points_box cs =
          Inr (fold (\<lambda>q. min (fst q)) ps (fst p), fold (\<lambda>q. min (snd q)) ps (snd p),
               fold (\<lambda>q. max (fst q)) ps (fst p), fold (\<lambda>q. max (snd q)) ps (snd p))
      \<and> (list_all (\<lambda>c. list_all (\<lambda>t. t = LINE) (tags c)) cs \<longrightarrow>
          bbox points_box cs =
            Inr (fold (\<lambda>q. min (fst q)) ps (fst p), fold (\<lambda>q. min (snd q)) ps (snd p),
                 fold (\<lambda>q. max (fst q)) ps (fst p), fold (\<lambda>q. max (snd q)) ps (snd p)))
      \<and> (\<exists>ol. outline cs None None evenOdd = Inr ol
           \<and> map (\<lambda>q. (real_of_int (vec_x q) / 64, real_of_int (vec_y q) / 64))
                 (FT_Outline.points ol) = p # ps))"
proof -
  have one: "bbox points_box [Contour [(x, y)] [LINE]] = Inr (x, y, x, y)
      \<and> cbox points_box [Contour [(x, y)] [LINE]] = Inr (x, y, x, y)"
    if "aligned x" "aligned y"
  proof -
    have "paired [Contour [(x, y)] [LINE]]" by (simp add: paired_def)
    moreover have "concat (map points [Contour [(x, y)] [LINE]]) = (x, y) # []" by simp
    moreover have "list_all (\<lambda>q. aligned (fst q) \<and> aligned (snd q)) ((x, y) # [])"
      using that by simp
    ultimately show ?thesis
      using points_box_roundtrip [of "[Contour [(x, y)] [LINE]]" "(x, y)" "[]"] by simp
  qed
  have many: "cbox points_box cs =
          Inr (fold (\<lambda>q. min (fst q)) ps (fst p), fold (\<lambda>q. min (snd q)) ps (snd p),
               fold (\<lambda>q. max (fst q)) ps (fst p), fold (\<lambda>q. max (snd q)) ps (snd p))
      \<and> (list_all (\<lambda>c. list_all (\<lambda>t. t = LINE) (tags c)) cs \<longrightarrow>
          bbox points_box cs =
            Inr (fold (\<lambda>q. min (fst q)) ps (fst p), fold (\<lambda>q. min (snd q)) ps (snd p),
                 fold (\<lambda>q. max (fst q)) ps (fst p), fold (\<lambda>q. max (snd q)) ps (snd p)))
      \<and> (\<exists>ol. outline cs None None evenOdd = Inr ol
           \<and> map (\<lambda>q. (real_of_int (vec_x q) / 64, real_of_int (vec_y q) / 64))
                 (FT_Outline.points ol) = p # ps)"
    if h: "paired cs" "concat (map points cs) = p # ps"
      "list_all (\<lambda>q. aligned (fst q) \<and> aligned (snd q)) (p # ps)"
    using points_box_roundtrip [OF h] outline_roundtrip [of cs evenOdd] h by simp
  from one many show ?thesis by blast
qed

theorem quantize_roundtrip_witness:
  "aligned (1 / 64) \<and> aligned (- 37 / 64)
   \<and> bbox points_box [Contour [(1 / 64, - 37 / 64)] [LINE]] = Inr (1 / 64, - 37 / 64, 1 / 64, - 37 / 64)
   \<and> cbox points_box [Contour [(1 / 64, - 37 / 64)] [LINE]] = Inr (1 / 64, - 37 / 64, 1 / 64, - 37 / 64)
   \<and> paired [Contour [(1 / 64, - 37 / 64), (5 / 2, 3), (- 1 / 32, 7)] [1, 1, 1]]
   \<and> list_all (\<lambda>q. aligned (fst q) \<and> aligned (snd q)) [(1 / 64, - 37 / 64), (5 / 2, 3), (- 1 / 32, 7)]
   \<and> list_all (\<lambda>c. list_all (\<lambda>t. t = LINE) (tags c))
        [Contour [(1 / 64, - 37 / 64), (5 / 2, 3), (- 1 / 32, 7)] [1, 1, 1]]
   \<and> cbox points_box [Contour [(1 / 64, - 37 / 64), (5 / 2, 3), (- 1 / 32, 7)] [1, 1, 1]]
       = Inr (- 1 / 32, - 37 / 64, 5 / 2, 7)
   \<and> bbox points_box [Contour [(1 / 64, - 37 / 64), (5 / 2, 3), (- 1 / 32, 7)] [1, 1, 1]]
       = Inr (- 1 / 32, - 37 / 64, 5 / 2, 7)
   \<and> (\<exists>ol. outline [Contour [(1 / 64, - 37 / 64), (5 / 2, 3), (- 1 / 32, 7)] [1, 1, 1]]
              None None False = Inr ol
         \<and> map (\<lambda>q. (real_of_int (vec_x q) / 64, real_of_int (vec_y q) / 64))
               (FT_Outline.points ol) = [(1 / 64, - 37 / 64), (5 / 2, 3), (- 1 / 32, 7)])"
proof -
  let ?cs = "[Contour [(1 / 64, - 37 / 64), (5 / 2, 3), (- 1 / 32, 7)] [1, 1, 1]]"
  have p: "paired ?cs" by (simp add: paired_def)
  have a: "aligned (1 / 64)" "aligned (- 37 / 64)"
    by (simp_all add: aligned_def del: of_int_floor_cancel)
  have l: "list_all (\<lambda>q. aligned (fst q) \<and> aligned (snd q))
      [(1 / 64, - 37 / 64), (5 / 2, 3), (- 1 / 32, 7)]"
    by (simp add: aligned_def del: of_int_floor_cancel)
  have t: "list_all (\<lambda>c. list_all (\<lambda>t. t = LINE) (tags c)) ?cs" by (simp add: LINE_def)
  from quantize_roundtrip [of "1 / 64" "- 37 / 64" ?cs "(1 / 64, - 37 / 64)"
      "[(5 / 2, 3), (- 1 / 32, 7)]" False] p a l t
  show ?thesis by simp
qed

text \<open>
  Claim C8, as the code has it. \<^verbatim>\<open>outline\<close> never checks the scale and never fails
  with \<open>InvalidTransformError\<close>. A zero or a negative scale is quantized with like any
  other: where no operation overflows, the outline has the points of the pen quantized
  with that scale. A scale that is infinite or NaN is not rejected before quantization:
  on a pen without points \<^verbatim>\<open>outline\<close> returns an outline whatever the scale, and on a
  pen with points it fails when the first point is rounded, with \<open>OverflowError\<close> or
  \<open>ValueError\<close>.
\<close>

theorem scale_not_validated:
  "outline_py cs offset scale evenOdd \<noteq> Inl InvalidTransformError
   \<and> (paired cs \<and> list_all (in_range (or_default offset (0, 0)) (sx, sy)) (concat (map points cs)) \<longrightarrow>
        (\<exists>ol. outline_py cs offset (Some (Finite sx, Finite sy)) evenOdd = Inr ol
           \<and> FT_Outline.points ol =
               map (quantize_point (or_default offset (0, 0)) (sx, sy)) (concat (map points cs))))
   \<and> (paired cs \<and> concat (map points cs) = [] \<longrightarrow>
        (\<exists>ol. outline_py cs offset scale evenOdd = Inr ol \<and> FT_Outline.points ol = []))
   \<and> (\<not> (is_finite sa \<and> is_finite sb) \<and> concat (map points cs) \<noteq> [] \<longrightarrow>
        outline_py cs offset (Some (sa, sb)) evenOdd = Inl OverflowError
      \<or> outline_py cs offset (Some (sa, sb)) evenOdd = Inl ValueError)"
proof -
  have a: "outline_py cs offset scale evenOdd \<noteq> Inl InvalidTransformError"
    using outline_py_errors [of cs offset scale evenOdd InvalidTransformError] by auto
  have b: "\<exists>ol. outline_py cs offset (Some (Finite sx, Finite sy)) evenOdd = Inr ol
           \<and> FT_Outline.points ol =
               map (quantize_point (or_default offset (0, 0)) (sx, sy)) (concat (map points cs))"
    if "paired cs"
      "list_all (in_range (or_default offset (0, 0)) (sx, sy)) (concat (map points cs))"
    using outline_py_in_range [OF that(2), of evenOdd]
      outline_paired [OF that(1), of offset "Some (sx, sy)" evenOdd]
    by (simp add: or_default_def)
  from a b outline_py_no_points [of cs offset scale evenOdd]
    outline_py_nonfinite [of sa sb cs offset evenOdd]
  show ?thesis by blast
qed

theorem scale_not_validated_witness:
  "paired [Contour [(1, 1), (2, 3)] [1, 1]]
   \<and> list_all (in_range (0, 0) (- 1, 0)) [(1, 1), (2, 3)]
   \<and> (\<exists>ol. outline_py [Contour [(1, 1), (2, 3)] [1, 1]] None (Some (Finite (- 1), Finite 0)) False = Inr ol
         \<and> FT_Outline.points ol = [FT_Vector (- 64) 0, FT_Vector (- 128) 0])
   \<and> paired init \<and> concat (map points init) = []
   \<and> (\<exists>ol. outline_py init None (Some (PosInf, NaN)) False = Inr ol \<and> FT_Outline.points ol = [])
   \<and> \<not> (is_finite PosInf \<and> is_finite (Finite 1))
   \<and> concat (map points [Contour [(1, 1), (2, 3)] [1, 1]]) \<noteq> []
   \<and> (outline_py [Contour [(1, 1), (2, 3)] [1, 1]] None (Some (PosInf, Finite 1)) False = Inl OverflowError
      \<or> outline_py [Contour [(1, 1), (2, 3)] [1, 1]] None (Some (PosInf, Finite 1)) False = Inl ValueError)"
proof -
  let ?cs = "[Contour [(1, 1), (2, 3)] [1, 1]]"
  have p: "paired ?cs" "paired init" by (simp_all add: paired_def init_def)
  have r: "list_all (in_range (0, 0) (- 1, 0)) [(1, 1), (2, 3)]"
    by (simp add: in_range_def float_limit_def)
  have e: "concat (map points init) = []" by (simp add: init_def)
  from scale_not_validated [of ?cs None "Some (PosInf, NaN)" False "- 1" 0 PosInf "Finite 1"]
    scale_not_validated [of init None "Some (PosInf, NaN)" False]
    p r e
  show ?thesis
    by (simp add: or_default_def quantize_point_def otRound_def FT_Pos_def)
qed

theorem scale_not_validated_counterexample:
  "outline_py [Contour [(1, 1), (2, 3)] [LINE, LINE]] None (Some (Finite (- 1), Finite 0)) False
     = Inr \<lparr>n_contours = 1, n_points = 2,
            FT_Outline.points = [FT_Vector (- 64) 0, FT_Vector (- 128) 0],
            FT_Outline.tags = [1, 1], contours = [1], flags = FT_OUTLINE_NONE\<rparr>
   \<and> outline_py init None (Some (PosInf, NaN)) False
     = Inr \<lparr>n_contours = 0, n_points = 0, FT_Outline.points = [], FT_Outline.tags = [],
            contours = [], flags = FT_OUTLINE_NONE\<rparr>
   \<and> outline_py [Contour [(1, 1), (2, 3)] [LINE, LINE]] None (Some (PosInf, Finite 1)) False
     = Inl OverflowError
   \<and> outline_py [Contour [(0, 1)] [LINE]] None (Some (PosInf, Finite 1)) False
     = Inl ValueError
   \<and> outline_py [Contour [(1, 1)] [LINE]] None (Some (Finite (10 ^ 307), Finite 1)) False
     = Inl OverflowError"
proof -
  have l: "float_limit = 2 ^ 1024 - 2 ^ 970" by (rule float_limit_def)
  have s: "\<bar>1 :: real\<bar> < float_limit" "\<bar>2 :: real\<bar> < float_limit" "\<bar>3 :: real\<bar> < float_limit"
    "\<bar>0 :: real\<bar> < float_limit" "\<bar>64 :: real\<bar> < float_limit" "\<bar>128 :: real\<bar> < float_limit"
    by (simp_all add: float_limit_def)
  have h: "\<bar>10 ^ 307 :: real\<bar> < float_limit" "\<not> \<bar>10 ^ 307 * 64 :: real\<bar> < float_limit"
    by (simp_all add: l)
  show ?thesis
    using s h
    by (simp add: outline_py_def quantize_py_def fadd_def overflow_def c_array_def or_default_def
        otRound_def FT_Pos_def c_short_def c_ubyte_def LINE_def init_def)
qed

text \<open>
  Claim C10. As bytes of the tag array, a line endpoint and a quadratic endpoint are
  both 1, a quadratic control point is 0 and a cubic control point is 2; the five
  classifications have four distinct tag values between them; every drawing method
  that succeeds leaves the tags already recorded in place and appends the tags of the
  classifications the specification gives its points; and the tag array of the outline
  of a drawn pen is the sequence of those tags, command by command.
\<close>

theorem tag_encoding:
  "c_ubyte (tag_of LineEnd) = 1 \<and> c_ubyte (tag_of QuadEnd) = 1
   \<and> c_ubyte (tag_of QuadControl) = 0 \<and> c_ubyte (tag_of CubicControl) = 2
   \<and> card (range (\<lambda>k. c_ubyte (tag_of k))) = 4
   \<and> (exec k cs = (Inr (), cs') \<longrightarrow>
        concat (map tags cs') = concat (map tags cs) @ map tag_of (spec_classes k))
   \<and> (draw ks init = (Inr (), fin) \<longrightarrow>
        (\<exists>ol. outline fin offset scale evenOdd = Inr ol
           \<and> FT_Outline.tags ol = map (\<lambda>k. c_ubyte (tag_of k)) (concat (map spec_classes ks))))"
proof -
  have a: "c_ubyte (tag_of LineEnd) = 1" "c_ubyte (tag_of QuadEnd) = 1"
    "c_ubyte (tag_of QuadControl) = 0" "c_ubyte (tag_of CubicControl) = 2"
    by (simp_all add: c_ubyte_def LINE_def QCURVE_def QOFFCURVE_def OFFCURVE_def)
  have "range (\<lambda>k. c_ubyte (tag_of k)) = {1, 3, 2, 0}"
    by (auto simp add: UNIV_point_class c_ubyte_def LINE_def QCURVE_def QOFFCURVE_def
        OFFCURVE_def CURVE_def)
  then have b: "card (range (\<lambda>k. c_ubyte (tag_of k))) = 4" by simp
  have c: "\<exists>ol. outline fin offset scale evenOdd = Inr ol
      \<and> FT_Outline.tags ol = map (\<lambda>k. c_ubyte (tag_of k)) (concat (map spec_classes ks))"
    if d: "draw ks init = (Inr (), fin)"
  proof -
    from paired_draw [OF paired_init, of ks] d have p: "paired fin" by simp
    from draw_tags [OF d] have "concat (map tags fin) = map tag_of (concat (map spec_classes ks))"
      by (simp add: init_def)
    with outline_paired [OF p, of offset scale evenOdd] show ?thesis
      by (simp add: comp_def)
  qed
  from a b c exec_tags show ?thesis by blast
qed

theorem tag_encoding_witness:
  "exec (QCurveToOne (5, 10) (10, 0)) [Contour [(0, 0)] [1]]
     = (Inr (), [Contour [(0, 0), (5, 10), (10, 0)] [1, 0, 1]])
   \<and> concat (map tags [Contour [(0, 0), (5, 10), (10, 0)] [1, 0, 1]])
     = concat (map tags [Contour [(0, 0)] [1]]) @ map tag_of (spec_classes (QCurveToOne (5, 10) (10, 0)))
   \<and> draw [MoveTo (0, 0), LineTo (10, 0), CurveToOne (10, 5) (5, 10) (0, 10), QCurveToOne (-5, 5) (0, 0)] init
     = (Inr (), [Contour [(0, 0), (10, 0), (10, 5), (5, 10), (0, 10), (-5, 5), (0, 0)] [1, 1, 2, 2, 3, 0, 1]])
   \<and> (\<exists>ol. outline [Contour [(0, 0), (10, 0), (10, 5), (5, 10), (0, 10), (-5, 5), (0, 0)] [1, 1, 2, 2, 3, 0, 1]]
              None None False = Inr ol
         \<and> FT_Outline.tags ol = [1, 1, 2, 2, 3, 0, 1])"
proof -
  have e: "exec (QCurveToOne (5, 10) (10, 0)) [Contour [(0, 0)] [1]]
     = (Inr (), [Contour [(0, 0), (5, 10), (10, 0)] [1, 0, 1]])"
    by (simp add: pen_qCurveToOne_def append_point_def QOFFCURVE_def QCURVE_def)
  have d: "draw [MoveTo (0, 0), LineTo (10, 0), CurveToOne (10, 5) (5, 10) (0, 10), QCurveToOne (-5, 5) (0, 0)] init
     = (Inr (), [Contour [(0, 0), (10, 0), (10, 5), (5, 10), (0, 10), (-5, 5), (0, 0)] [1, 1, 2, 2, 3, 0, 1]])"
    by (simp add: pen_moveTo_def pen_lineTo_def pen_curveToOne_def pen_qCurveToOne_def
        append_point_def init_def LINE_def CURVE_def OFFCURVE_def QOFFCURVE_def QCURVE_def)
  from tag_encoding [of "QCurveToOne (5, 10) (10, 0)" "[Contour [(0, 0)] [1]]"
      "[Contour [(0, 0), (5, 10), (10, 0)] [1, 0, 1]]"
      "[MoveTo (0, 0), LineTo (10, 0), CurveToOne (10, 5) (5, 10) (0, 10), QCurveToOne (-5, 5) (0, 0)]"
      "[Contour [(0, 0), (10, 0), (10, 5), (5, 10), (0, 10), (-5, 5), (0, 0)] [1, 1, 2, 2, 3, 0, 1]]"
      None None False] e d
  show ?thesis
    by (simp add: c_ubyte_def LINE_def CURVE_def OFFCURVE_def QOFFCURVE_def QCURVE_def)
qed

end
